theory Spec2Isabelle
  imports Complex_Main
begin

section \<open>JSON values and the JavaScript operations the aggregator applies to them\<close>

text \<open>
  This theory embeds \<^verbatim>\<open>getApiMetrics\<close> (\<^verbatim>\<open>src/unnamed/part_003\<close>, lines 204 to 328;
  the line numbers quoted below are that file's). The function reads the
  \<^verbatim>\<open>text\<close> of each message with \<^verbatim>\<open>JSON.parse\<close> and then works on whatever value
  comes back. The values are modelled as a datatype; a JavaScript number is modelled as
  an exact rational (rounding, infinities and NaN of IEEE doubles are outside the model).
\<close>

type_synonym number = rat

datatype json =
    JNull
  | JBool bool
  | JNum number
  | JStr string
  | JArr "json list"
  | JObj "(string \<times> json) list"

text \<open>
  \<open>JObj kvs\<close> lists the own properties of a parsed object, each key once; a key is looked
  up with \<open>map_of\<close>.
\<close>

datatype exn = SyntaxError | TypeError

text \<open>
  The built-in operations whose results are fixed by the language and its implementation,
  not by this repository, are parameters of the model:
  \<^item> \<open>JSON_parse\<close> is \<^verbatim>\<open>JSON.parse\<close> on a non-empty text (\<open>None\<close>: it throws SyntaxError);
  \<^item> \<open>NumberToString\<close> is the conversion of a number to a string;
  \<^item> \<open>StringToNumber\<close> is the conversion of a string to a number (\<open>None\<close>: NaN);
  \<^item> \<open>ObjectPrototype k\<close> is \<open>Some t\<close> when \<^verbatim>\<open>Object.prototype\<close> has a property named
    \<open>k\<close> (such as \<^verbatim>\<open>constructor\<close> or \<^verbatim>\<open>toString\<close>), \<open>t\<close> being the string that
    property's value converts to, and \<open>None\<close> otherwise.
\<close>

record runtime =
  JSON_parse :: "string \<Rightarrow> json option"
  NumberToString :: "number \<Rightarrow> string"
  StringToNumber :: "string \<Rightarrow> number option"
  ObjectPrototype :: "string \<Rightarrow> string option"

text \<open>Truthiness of a destructured property (\<open>None\<close> is \<^verbatim>\<open>undefined\<close>).\<close>

fun truthy :: "json option \<Rightarrow> bool" where
  "truthy None = False"
| "truthy (Some JNull) = False"
| "truthy (Some (JBool b)) = b"
| "truthy (Some (JNum n)) = (n \<noteq> 0)"
| "truthy (Some (JStr s)) = (s \<noteq> [])"
| "truthy (Some (JArr xs)) = True"
| "truthy (Some (JObj kvs)) = True"

text \<open>\<^verbatim>\<open>typeof v === "number"\<close>, giving the number.\<close>

fun typeof_number :: "json option \<Rightarrow> number option" where
  "typeof_number (Some (JNum n)) = Some n"
| "typeof_number _ = None"

text \<open>
  Conversion to a string, \<open>None\<close> when it throws TypeError. An array joins the strings of
  its elements with commas, \<^verbatim>\<open>null\<close> elements giving the empty string. A parsed object
  converts through the inherited \<^verbatim>\<open>toString\<close>, unless it has an own property of that
  name: a parsed value is never callable, the inherited \<^verbatim>\<open>valueOf\<close> returns the object
  itself, and so no method yields a primitive.
\<close>

fun ToString :: "runtime \<Rightarrow> json \<Rightarrow> string option"
  and join :: "runtime \<Rightarrow> json list \<Rightarrow> string option" where
  "ToString rt JNull = Some ''null''"
| "ToString rt (JBool b) = Some (if b then ''true'' else ''false'')"
| "ToString rt (JNum n) = Some (NumberToString rt n)"
| "ToString rt (JStr s) = Some s"
| "ToString rt (JArr xs) = join rt xs"
| "ToString rt (JObj kvs) =
     (if map_of kvs ''toString'' = None then Some ''[object Object]'' else None)"
| "join rt [] = Some []"
| "join rt (x # xs) =
     (case (case x of JNull \<Rightarrow> Some [] | _ \<Rightarrow> ToString rt x) of
        None \<Rightarrow> None
      | Some a \<Rightarrow>
          (if xs = [] then Some a
           else (case join rt xs of None \<Rightarrow> None | Some b \<Rightarrow> Some (a @ '','' @ b))))"

text \<open>Primitive values: the operands and results of \<^verbatim>\<open>+\<close> and \<^verbatim>\<open>>\<close>.\<close>

datatype prim = PNum number | PStr string | PBool bool | PNull

fun ToPrimitive :: "runtime \<Rightarrow> json \<Rightarrow> prim option" where
  "ToPrimitive rt JNull = Some PNull"
| "ToPrimitive rt (JBool b) = Some (PBool b)"
| "ToPrimitive rt (JNum n) = Some (PNum n)"
| "ToPrimitive rt (JStr s) = Some (PStr s)"
| "ToPrimitive rt (JArr xs) = map_option PStr (ToString rt (JArr xs))"
| "ToPrimitive rt (JObj kvs) = map_option PStr (ToString rt (JObj kvs))"

fun is_PStr :: "prim \<Rightarrow> bool" where
  "is_PStr (PStr s) = True"
| "is_PStr _ = False"

fun prim_ToString :: "runtime \<Rightarrow> prim \<Rightarrow> string" where
  "prim_ToString rt (PNum n) = NumberToString rt n"
| "prim_ToString rt (PStr s) = s"
| "prim_ToString rt (PBool b) = (if b then ''true'' else ''false'')"
| "prim_ToString rt PNull = ''null''"

fun prim_ToNumber :: "runtime \<Rightarrow> prim \<Rightarrow> number option" where
  "prim_ToNumber rt (PNum n) = Some n"
| "prim_ToNumber rt (PStr s) = StringToNumber rt s"
| "prim_ToNumber rt (PBool b) = Some (if b then 1 else 0)"
| "prim_ToNumber rt PNull = Some 0"

text \<open>
  \<^verbatim>\<open>a + b\<close> on primitives: concatenation as soon as one operand is a string, addition of
  the operands' numbers otherwise (then neither is a string, and neither number is NaN).
\<close>

definition js_plus :: "runtime \<Rightarrow> prim \<Rightarrow> prim \<Rightarrow> prim" where
  "js_plus rt a b =
     (if is_PStr a \<or> is_PStr b then PStr (prim_ToString rt a @ prim_ToString rt b)
      else (case (prim_ToNumber rt a, prim_ToNumber rt b) of
              (Some x, Some y) \<Rightarrow> PNum (x + y)
            | _ \<Rightarrow> PNum 0))"

text \<open>\<^verbatim>\<open>v > 0\<close>: a comparison with NaN is false.\<close>

definition js_gt0 :: "runtime \<Rightarrow> prim \<Rightarrow> bool" where
  "js_gt0 rt v = (case prim_ToNumber rt v of None \<Rightarrow> False | Some n \<Rightarrow> 0 < n)"

fun prim_truthy :: "prim \<Rightarrow> bool" where
  "prim_truthy (PNum n) = (n \<noteq> 0)"
| "prim_truthy (PStr s) = (s \<noteq> [])"
| "prim_truthy (PBool b) = b"
| "prim_truthy PNull = False"

text \<open>
  Destructuring \<^verbatim>\<open>const { tokensIn, ... } = value\<close>: \<^verbatim>\<open>null\<close> cannot be destructured
  (TypeError, here \<open>None\<close>); an object gives its own properties; a number, string, boolean
  or array has none of the names that are read, so each of them is \<^verbatim>\<open>undefined\<close>.
\<close>

fun destructure :: "json \<Rightarrow> (string \<Rightarrow> json option) option" where
  "destructure JNull = None"
| "destructure (JObj kvs) = Some (map_of kvs)"
| "destructure (JBool b) = Some (\<lambda>k. None)"
| "destructure (JNum n) = Some (\<lambda>k. None)"
| "destructure (JStr s) = Some (\<lambda>k. None)"
| "destructure (JArr xs) = Some (\<lambda>k. None)"

section \<open>Messages and the summary record\<close>

datatype msg_type = Ask | Say

text \<open>
  The fields of \<^verbatim>\<open>ClineMessage\<close> that \<^verbatim>\<open>getApiMetrics\<close> reads; \<^verbatim>\<open>text\<close> is named
  \<open>msg_text\<close> here.
\<close>

record ClineMessage =
  ts :: number
  type :: msg_type
  say :: "string option"
  msg_text :: "string option"

text \<open>
  An entry of \<^verbatim>\<open>performanceHistory\<close>: the token counts, provider and model are stored
  as they were destructured.
\<close>

record PerformanceEntry =
  entry_ts :: number
  entry_duration :: number
  entry_tokensIn :: "json option"
  entry_tokensOut :: "json option"
  entry_provider :: "json option"
  entry_modelId :: "json option"

text \<open>
  \<^verbatim>\<open>ApiMetrics\<close>. The four \<^verbatim>\<open>Record<string, number>\<close> objects are maps from the own
  property names to the stored values; a stored value is whatever \<^verbatim>\<open>+\<close> produced, a
  number or a string. \<^verbatim>\<open>contextTokens\<close> holds what \<^verbatim>\<open>getTotalTokensFromMessage\<close>
  returned.
\<close>

record ApiMetrics =
  totalTokensIn :: number
  totalTokensOut :: number
  totalCacheWrites :: "number option"
  totalCacheReads :: "number option"
  totalCost :: number
  contextTokens :: prim
  totalDuration :: number
  requestCount :: number
  averageDuration :: number
  requestsByProvider :: "string \<rightharpoonup> prim"
  requestsByModel :: "string \<rightharpoonup> prim"
  durationByProvider :: "string \<rightharpoonup> prim"
  durationByModel :: "string \<rightharpoonup> prim"
  performanceHistory :: "PerformanceEntry list"

definition result0 :: ApiMetrics where
  "result0 =
     \<lparr> totalTokensIn = 0, totalTokensOut = 0,
       totalCacheWrites = None, totalCacheReads = None,
       totalCost = 0, contextTokens = PNum 0,
       totalDuration = 0, requestCount = 0, averageDuration = 0,
       requestsByProvider = Map.empty, requestsByModel = Map.empty,
       durationByProvider = Map.empty, durationByModel = Map.empty,
       performanceHistory = [] \<rparr>"

section \<open>getTotalTokensFromMessage\<close>

text \<open>\<^verbatim>\<open>v || 0\<close>\<close>

definition or0 :: "json option \<Rightarrow> json" where
  "or0 v = (if truthy v then (case v of Some j \<Rightarrow> j | None \<Rightarrow> JNum 0) else JNum 0)"

text \<open>The body of the \<^verbatim>\<open>try\<close> block, on a non-empty text.\<close>

definition totalTokens_try :: "runtime \<Rightarrow> string \<Rightarrow> exn + prim" where
  "totalTokens_try rt s =
     (case JSON_parse rt s of
        None \<Rightarrow> Inl SyntaxError
      | Some j \<Rightarrow>
          (case destructure j of
             None \<Rightarrow> Inl TypeError
           | Some f \<Rightarrow>
               (case (ToPrimitive rt (or0 (f ''tokensIn'')),
                      ToPrimitive rt (or0 (f ''tokensOut'')),
                      ToPrimitive rt (or0 (f ''cacheWrites'')),
                      ToPrimitive rt (or0 (f ''cacheReads''))) of
                  (Some a, Some b, Some c, Some d) \<Rightarrow>
                    Inr (js_plus rt (js_plus rt (js_plus rt a b) c) d)
                | _ \<Rightarrow> Inl TypeError)))"

definition getTotalTokensFromMessage :: "runtime \<Rightarrow> ClineMessage \<Rightarrow> prim" where
  "getTotalTokensFromMessage rt message =
     (case msg_text message of
        None \<Rightarrow> PNum 0
      | Some s \<Rightarrow>
          (if s = [] then PNum 0
           else (case totalTokens_try rt s of Inl e \<Rightarrow> PNum 0 | Inr v \<Rightarrow> v)))"

section \<open>The last request that has tokens\<close>

definition is_api_req_started :: "ClineMessage \<Rightarrow> bool" where
  "is_api_req_started message = (type message = Say \<and> say message = Some ''api_req_started'')"

text \<open>
  \<^verbatim>\<open>[...messages].reverse().find(...)\<close>. The message found is kept with its position:
  \<^verbatim>\<open>message === lastApiReq\<close> compares object identity, not contents, and the
  messages of a list are told apart by their positions. (Were one object to stand at
  two positions, the test would also succeed at the earlier one, where it would assign
  the value that the later one assigns again.)
\<close>

definition lastApiReq :: "runtime \<Rightarrow> ClineMessage list \<Rightarrow> (nat \<times> ClineMessage) option" where
  "lastApiReq rt messages =
     find (\<lambda>(i, message).
             if is_api_req_started message
             then js_gt0 rt (getTotalTokensFromMessage rt message)
             else False)
          (rev (enumerate 0 messages))"

definition is_lastApiReq :: "(nat \<times> ClineMessage) option \<Rightarrow> nat \<Rightarrow> bool" where
  "is_lastApiReq lastReq i = (case lastReq of None \<Rightarrow> False | Some (j, m) \<Rightarrow> j = i)"

section \<open>The running totals\<close>

text \<open>Lines 258 to 275: the token, cache and cost totals, and the request count.\<close>

definition add_usage :: "(string \<Rightarrow> json option) \<Rightarrow> ApiMetrics \<Rightarrow> ApiMetrics" where
  "add_usage f r =
     (let r = (case typeof_number (f ''tokensIn'') of
                 Some n \<Rightarrow> r\<lparr>totalTokensIn := totalTokensIn r + n\<rparr> | None \<Rightarrow> r);
          r = (case typeof_number (f ''tokensOut'') of
                 Some n \<Rightarrow> r\<lparr>totalTokensOut := totalTokensOut r + n\<rparr> | None \<Rightarrow> r);
          r = (case typeof_number (f ''cacheWrites'') of
                 Some n \<Rightarrow>
                   r\<lparr>totalCacheWrites :=
                       Some ((case totalCacheWrites r of None \<Rightarrow> 0 | Some w \<Rightarrow> w) + n)\<rparr>
               | None \<Rightarrow> r);
          r = (case typeof_number (f ''cacheReads'') of
                 Some n \<Rightarrow>
                   r\<lparr>totalCacheReads :=
                       Some ((case totalCacheReads r of None \<Rightarrow> 0 | Some w \<Rightarrow> w) + n)\<rparr>
               | None \<Rightarrow> r);
          r = (case typeof_number (f ''cost'') of
                 Some n \<Rightarrow> r\<lparr>totalCost := totalCost r + n\<rparr> | None \<Rightarrow> r)
      in r\<lparr>requestCount := requestCount r + 1\<rparr>)"

text \<open>Lines 278 to 283.\<close>

definition requestDuration :: "(string \<Rightarrow> json option) \<Rightarrow> number" where
  "requestDuration f =
     (case typeof_number (f ''duration'') of
        Some d \<Rightarrow> d
      | None \<Rightarrow>
          (case (typeof_number (f ''startTime''), typeof_number (f ''endTime'')) of
             (Some s, Some e) \<Rightarrow> e - s
           | _ \<Rightarrow> 0))"

text \<open>
  \<^verbatim>\<open>obj[k] || 0\<close> on one of the four objects, as the operand \<^verbatim>\<open>+\<close> sees it. An own
  property is read; a name that is not an own property is looked up in
  \<^verbatim>\<open>Object.prototype\<close>, whose properties are functions and objects, all truthy.
\<close>

definition get_or0 :: "runtime \<Rightarrow> (string \<rightharpoonup> prim) \<Rightarrow> string \<Rightarrow> prim" where
  "get_or0 rt obj k =
     (case obj k of
        Some v \<Rightarrow> (if prim_truthy v then v else PNum 0)
      | None \<Rightarrow> (case ObjectPrototype rt k of Some t \<Rightarrow> PStr t | None \<Rightarrow> PNum 0))"

text \<open>
  \<^verbatim>\<open>obj[k] = v\<close> with a primitive \<open>v\<close>: the inherited setter of \<^verbatim>\<open>__proto__\<close> ignores
  it; any other name becomes (or stays) an own property.
\<close>

definition obj_set :: "(string \<rightharpoonup> prim) \<Rightarrow> string \<Rightarrow> prim \<Rightarrow> (string \<rightharpoonup> prim)" where
  "obj_set obj k v = (if k = ''__proto__'' then obj else obj(k \<mapsto> v))"

text \<open>
  Lines 299 to 303, and 306 to 309 with \<^verbatim>\<open>modelId\<close>: the request count and the duration
  under the key. Converting the key is the first thing to happen and the only one that
  can throw.
\<close>

definition track ::
  "runtime \<Rightarrow> json option \<Rightarrow> number \<Rightarrow> (string \<rightharpoonup> prim) \<times> (string \<rightharpoonup> prim)
     \<Rightarrow> exn + (string \<rightharpoonup> prim) \<times> (string \<rightharpoonup> prim)" where
  "track rt key d objs =
     (case key of
        None \<Rightarrow> Inr objs
      | Some j \<Rightarrow>
          (if truthy (Some j) then
             (case ToString rt j of
                None \<Rightarrow> Inl TypeError
              | Some k \<Rightarrow>
                  Inr (obj_set (fst objs) k (js_plus rt (get_or0 rt (fst objs) k) (PNum 1)),
                       obj_set (snd objs) k (js_plus rt (get_or0 rt (snd objs) k) (PNum d))))
           else Inr objs))"

definition set_contextTokens ::
  "runtime \<Rightarrow> (nat \<times> ClineMessage) option \<Rightarrow> nat \<Rightarrow> ClineMessage \<Rightarrow> ApiMetrics \<Rightarrow> ApiMetrics" where
  "set_contextTokens rt lastReq i message r =
     (if is_lastApiReq lastReq i
      then r\<lparr>contextTokens := getTotalTokensFromMessage rt message\<rparr>
      else r)"

text \<open>Lines 289 to 296: the object pushed to \<^verbatim>\<open>performanceHistory\<close>.\<close>

definition history_entry ::
  "ClineMessage \<Rightarrow> (string \<Rightarrow> json option) \<Rightarrow> number \<Rightarrow> PerformanceEntry" where
  "history_entry message f d =
     \<lparr> entry_ts = ts message, entry_duration = d,
       entry_tokensIn = f ''tokensIn'', entry_tokensOut = f ''tokensOut'',
       entry_provider = f ''provider'', entry_modelId = f ''modelId'' \<rparr>"

text \<open>
  Lines 258 to 315 of the \<^verbatim>\<open>forEach\<close> callback, on the destructured properties \<open>f\<close>:
  the record as these lines leave it, and the exception they threw, if any. What was
  written before a throw stays written.
\<close>

definition callback_body ::
  "runtime \<Rightarrow> (nat \<times> ClineMessage) option \<Rightarrow> ApiMetrics \<Rightarrow> nat \<Rightarrow> ClineMessage
     \<Rightarrow> (string \<Rightarrow> json option) \<Rightarrow> ApiMetrics \<times> exn option" where
  "callback_body rt lastReq r i message f =
     (let r1 = add_usage f r;
          d = requestDuration f
      in if 0 < d then
           (let r2 = r1\<lparr>totalDuration := totalDuration r1 + d,
                        performanceHistory := performanceHistory r1 @ [history_entry message f d]\<rparr>
            in case track rt (f ''provider'') d
                      (requestsByProvider r2, durationByProvider r2) of
                 Inl e \<Rightarrow> (r2, Some e)
               | Inr byProvider \<Rightarrow>
                   (let r3 = r2\<lparr>requestsByProvider := fst byProvider,
                                durationByProvider := snd byProvider\<rparr>
                    in case track rt (f ''modelId'') d
                              (requestsByModel r3, durationByModel r3) of
                         Inl e \<Rightarrow> (r3, Some e)
                       | Inr byModel \<Rightarrow>
                           (set_contextTokens rt lastReq i message
                              (r3\<lparr>requestsByModel := fst byModel,
                                  durationByModel := snd byModel\<rparr>),
                            None)))
         else (set_contextTokens rt lastReq i message r1, None))"

text \<open>
  The \<^verbatim>\<open>try\<close> block of the callback on the text \<open>s\<close>: \<^verbatim>\<open>JSON.parse\<close>, the
  destructuring, and the lines above.
\<close>

definition callback_try ::
  "runtime \<Rightarrow> (nat \<times> ClineMessage) option \<Rightarrow> ApiMetrics \<Rightarrow> nat \<Rightarrow> ClineMessage \<Rightarrow> string
     \<Rightarrow> ApiMetrics \<times> exn option" where
  "callback_try rt lastReq r i message s =
     (case JSON_parse rt s of
        None \<Rightarrow> (r, Some SyntaxError)
      | Some j \<Rightarrow>
          (case destructure j of
             None \<Rightarrow> (r, Some TypeError)
           | Some f \<Rightarrow> callback_body rt lastReq r i message f))"

text \<open>
  The callback: the guard, the \<^verbatim>\<open>try\<close> block and its \<^verbatim>\<open>catch\<close>, which writes the
  exception to the console and returns. The state is the record under construction and
  the console.
\<close>

definition callback ::
  "runtime \<Rightarrow> (nat \<times> ClineMessage) option \<Rightarrow> ApiMetrics \<times> exn list \<Rightarrow> nat \<Rightarrow> ClineMessage
     \<Rightarrow> exn + ApiMetrics \<times> exn list" where
  "callback rt lastReq w i message =
     (case msg_text message of
        None \<Rightarrow> Inr w
      | Some s \<Rightarrow>
          (if is_api_req_started message \<and> s \<noteq> [] then
             (case callback_try rt lastReq (fst w) i message s of
                (r, None) \<Rightarrow> Inr (r, snd w)
              | (r, Some e) \<Rightarrow> Inr (r, snd w @ [e]))
           else Inr w))"

text \<open>\<^verbatim>\<open>messages.forEach\<close>: an exception that leaves the callback ends the loop.\<close>

fun forEach ::
  "('w \<Rightarrow> nat \<Rightarrow> 'a \<Rightarrow> exn + 'w) \<Rightarrow> 'w \<Rightarrow> nat \<Rightarrow> 'a list \<Rightarrow> exn + 'w" where
  "forEach f w i [] = Inr w"
| "forEach f w i (x # xs) =
     (case f w i x of Inl e \<Rightarrow> Inl e | Inr w' \<Rightarrow> forEach f w' (Suc i) xs)"

text \<open>Lines 323 to 325.\<close>

definition set_averageDuration :: "ApiMetrics \<Rightarrow> ApiMetrics" where
  "set_averageDuration r =
     (if 0 < requestCount r \<and> 0 < totalDuration r
      then r\<lparr>averageDuration := totalDuration r / requestCount r\<rparr>
      else r)"

text \<open>
  \<^verbatim>\<open>getApiMetrics\<close>, called with the console in some state: \<open>Inr\<close> the record it
  returns and the console afterwards, \<open>Inl\<close> an exception that reaches the caller.
\<close>

definition getApiMetrics ::
  "runtime \<Rightarrow> ClineMessage list \<Rightarrow> exn list \<Rightarrow> exn + ApiMetrics \<times> exn list" where
  "getApiMetrics rt messages console =
     (case forEach (callback rt (lastApiReq rt messages)) (result0, console) 0 messages of
        Inl e \<Rightarrow> Inl e
      | Inr w \<Rightarrow> Inr (set_averageDuration (fst w), snd w))"

section \<open>Notions the properties are stated with\<close>

text \<open>
  An event tagged as an API-request-start whose text is JSON-parsable. The empty text is
  not a JSON text (and the callback never hands it to \<^verbatim>\<open>JSON.parse\<close>).
\<close>

definition parsable :: "runtime \<Rightarrow> ClineMessage \<Rightarrow> bool" where
  "parsable rt message =
     (is_api_req_started message \<and>
      (case msg_text message of None \<Rightarrow> False | Some s \<Rightarrow> s \<noteq> [] \<and> JSON_parse rt s \<noteq> None))"

text \<open>The parsed value of such an event.\<close>

definition parsed :: "runtime \<Rightarrow> ClineMessage \<Rightarrow> json option" where
  "parsed rt message =
     (if is_api_req_started message
      then (case msg_text message of
              None \<Rightarrow> None
            | Some s \<Rightarrow> (if s = [] then None else JSON_parse rt s))
      else None)"

text \<open>
  The destructured properties of an event that the callback processes: it is tagged as an
  API-request-start, its text parses, and the parsed value can be destructured.
\<close>

definition payload :: "runtime \<Rightarrow> ClineMessage \<Rightarrow> (string \<Rightarrow> json option) option" where
  "payload rt message = (case parsed rt message of None \<Rightarrow> None | Some j \<Rightarrow> destructure j)"

definition processed :: "runtime \<Rightarrow> ClineMessage \<Rightarrow> bool" where
  "processed rt message = (payload rt message \<noteq> None)"

text \<open>
  The duration the callback computes for an event (\<^verbatim>\<open>requestDuration\<close>, lines 278 to
  283), and 0 for an event it does not process.
\<close>

definition derivedDuration :: "runtime \<Rightarrow> ClineMessage \<Rightarrow> number" where
  "derivedDuration rt message =
     (case payload rt message of None \<Rightarrow> 0 | Some f \<Rightarrow> requestDuration f)"

text \<open>The numeric occurrences of a property among the processed events, in order.\<close>

definition numeric_occurrences :: "runtime \<Rightarrow> string \<Rightarrow> ClineMessage list \<Rightarrow> number list" where
  "numeric_occurrences rt k messages =
     List.map_filter
       (\<lambda>message. case payload rt message of None \<Rightarrow> None | Some f \<Rightarrow> typeof_number (f k))
       messages"

text \<open>A property of the payload of a processed event (\<^verbatim>\<open>undefined\<close> otherwise).\<close>

definition payload_field :: "runtime \<Rightarrow> ClineMessage \<Rightarrow> string \<Rightarrow> json option" where
  "payload_field rt message k = (case payload rt message of None \<Rightarrow> None | Some f \<Rightarrow> f k)"

text \<open>The history entry of an event with a positive derived duration.\<close>

definition entry_of :: "runtime \<Rightarrow> ClineMessage \<Rightarrow> PerformanceEntry" where
  "entry_of rt message =
     (case payload rt message of
        None \<Rightarrow> history_entry message (\<lambda>k. None) 0
      | Some f \<Rightarrow> history_entry message f (requestDuration f))"

text \<open>A JSON object, as opposed to \<^verbatim>\<open>null\<close>, a number, a string, a boolean or an array.\<close>

fun is_object :: "json \<Rightarrow> bool" where
  "is_object (JObj kvs) = True"
| "is_object _ = False"

text \<open>An API-request-start event that has tokens: what \<^verbatim>\<open>find\<close> looks for.\<close>

definition has_tokens :: "runtime \<Rightarrow> ClineMessage \<Rightarrow> bool" where
  "has_tokens rt message =
     (is_api_req_started message \<and> js_gt0 rt (getTotalTokensFromMessage rt message))"

text \<open>
  Converting a provider or model to a property key throws: it is truthy and has no
  string conversion.
\<close>

definition key_throws :: "runtime \<Rightarrow> json option \<Rightarrow> bool" where
  "key_throws rt key =
     (case key of None \<Rightarrow> False | Some j \<Rightarrow> truthy (Some j) \<and> ToString rt j = None)"

text \<open>
  The callback does not reach its last statement on this event: the event is not
  processed, or one of the two key conversions throws.
\<close>

definition cut_short :: "runtime \<Rightarrow> ClineMessage \<Rightarrow> bool" where
  "cut_short rt message =
     (case payload rt message of
        None \<Rightarrow> True
      | Some f \<Rightarrow>
          0 < requestDuration f \<and>
          (key_throws rt (f ''provider'') \<or> key_throws rt (f ''modelId'')))"

text \<open>
  A pair of a request-count object and a duration object is in order: the two have the
  same keys, and under every key that is not the name of an inherited property the count
  is a number that is at least 1 and the duration a strictly positive number.
\<close>

definition by_key_ok :: "runtime \<Rightarrow> (string \<rightharpoonup> prim) \<times> (string \<rightharpoonup> prim) \<Rightarrow> bool" where
  "by_key_ok rt objs =
     (dom (fst objs) = dom (snd objs) \<and>
      (\<forall>k v. ObjectPrototype rt k = None \<and> fst objs k = Some v \<longrightarrow> (\<exists>n. v = PNum n \<and> 1 \<le> n)) \<and>
      (\<forall>k v. ObjectPrototype rt k = None \<and> snd objs k = Some v \<longrightarrow> (\<exists>n. v = PNum n \<and> 0 < n)))"

text \<open>
  The next definitions follow the words of the claims, not the code. A member of a parsed
  JSON object (a value that is not an object has none), and a member that is a number.
\<close>

fun field_of :: "json \<Rightarrow> string \<Rightarrow> json option" where
  "field_of (JObj kvs) k = map_of kvs k"
| "field_of JNull k = None"
| "field_of (JBool b) k = None"
| "field_of (JNum n) k = None"
| "field_of (JStr s) k = None"
| "field_of (JArr xs) k = None"

definition number_at :: "json \<Rightarrow> string \<Rightarrow> number option" where
  "number_at j k = (case field_of j k of Some (JNum n) \<Rightarrow> Some n | _ \<Rightarrow> None)"

text \<open>
  The derived duration as claim C3 words it: the explicit \<^verbatim>\<open>duration\<close> field, else
  \<^verbatim>\<open>endTime - startTime\<close> when both are numeric, else 0. It is derived from the parsed
  payload of an API-request-start event; an event whose text does not parse has none.
\<close>

definition duration_rule :: "json \<Rightarrow> number" where
  "duration_rule j =
     (case number_at j ''duration'' of
        Some d \<Rightarrow> d
      | None \<Rightarrow>
          (case number_at j ''startTime'' of
             None \<Rightarrow> 0
           | Some s \<Rightarrow> (case number_at j ''endTime'' of None \<Rightarrow> 0 | Some e \<Rightarrow> e - s)))"

definition stated_duration :: "runtime \<Rightarrow> ClineMessage \<Rightarrow> number option" where
  "stated_duration rt message = map_option duration_rule (parsed rt message)"

text \<open>
  The combined tokens of an event as the specification words them: 0 if the event has no
  payload or the payload fails to parse, otherwise the sum of \<^verbatim>\<open>tokensIn\<close>,
  \<^verbatim>\<open>tokensOut\<close>, \<^verbatim>\<open>cacheWrites\<close> and \<^verbatim>\<open>cacheReads\<close>, a missing field being 0.
\<close>

definition tokens_at :: "json \<Rightarrow> string \<Rightarrow> number" where
  "tokens_at j k = (case number_at j k of None \<Rightarrow> 0 | Some n \<Rightarrow> n)"

definition combinedTokens :: "runtime \<Rightarrow> ClineMessage \<Rightarrow> number" where
  "combinedTokens rt message =
     (case msg_text message of
        None \<Rightarrow> 0
      | Some s \<Rightarrow>
          (if s = [] then 0
           else (case JSON_parse rt s of
                   None \<Rightarrow> 0
                 | Some j \<Rightarrow>
                     tokens_at j ''tokensIn'' + tokens_at j ''tokensOut'' +
                     tokens_at j ''cacheWrites'' + tokens_at j ''cacheReads'')))"

text \<open>
  The data model of the payload, as far as the context tokens go: each token count is a
  number when it is present, and the provider and the model are not objects or arrays
  (the data model has them as strings).
\<close>

fun number_or_absent :: "json option \<Rightarrow> bool" where
  "number_or_absent None = True"
| "number_or_absent (Some (JNum n)) = True"
| "number_or_absent (Some JNull) = False"
| "number_or_absent (Some (JBool b)) = False"
| "number_or_absent (Some (JStr s)) = False"
| "number_or_absent (Some (JArr xs)) = False"
| "number_or_absent (Some (JObj kvs)) = False"

definition tokens_numeric :: "runtime \<Rightarrow> ClineMessage \<Rightarrow> bool" where
  "tokens_numeric rt message =
     (case msg_text message of
        None \<Rightarrow> True
      | Some s \<Rightarrow>
          (if s = [] then True
           else (case JSON_parse rt s of
                   None \<Rightarrow> True
                 | Some j \<Rightarrow>
                     number_or_absent (field_of j ''tokensIn'') \<and>
                     number_or_absent (field_of j ''tokensOut'') \<and>
                     number_or_absent (field_of j ''cacheWrites'') \<and>
                     number_or_absent (field_of j ''cacheReads''))))"

fun plain_key :: "json option \<Rightarrow> bool" where
  "plain_key None = True"
| "plain_key (Some JNull) = True"
| "plain_key (Some (JBool b)) = True"
| "plain_key (Some (JNum n)) = True"
| "plain_key (Some (JStr s)) = True"
| "plain_key (Some (JArr xs)) = False"
| "plain_key (Some (JObj kvs)) = False"

definition keys_plain :: "runtime \<Rightarrow> ClineMessage \<Rightarrow> bool" where
  "keys_plain rt message =
     (case parsed rt message of
        None \<Rightarrow> True
      | Some j \<Rightarrow> plain_key (field_of j ''provider'') \<and> plain_key (field_of j ''modelId''))"

text \<open>The record after the callback has run on one message, and on a list of them.\<close>

definition step ::
  "runtime \<Rightarrow> (nat \<times> ClineMessage) option \<Rightarrow> ApiMetrics \<Rightarrow> nat \<Rightarrow> ClineMessage \<Rightarrow> ApiMetrics" where
  "step rt lastReq r i message =
     (case payload rt message of
        None \<Rightarrow> r
      | Some f \<Rightarrow> fst (callback_body rt lastReq r i message f))"

fun steps ::
  "runtime \<Rightarrow> (nat \<times> ClineMessage) option \<Rightarrow> ApiMetrics \<Rightarrow> nat \<Rightarrow> ClineMessage list
     \<Rightarrow> ApiMetrics" where
  "steps rt lastReq r i [] = r"
| "steps rt lastReq r i (message # messages) =
     steps rt lastReq (step rt lastReq r i message) (Suc i) messages"

section \<open>A runtime and messages for the examples\<close>

text \<open>
  The examples below are evaluated in \<open>node\<close>, which gives what ECMAScript (and, for
  the text of a built-in function, V8) gives on the values the examples apply it to:
  \<^verbatim>\<open>JSON.parse\<close> on the texts tabulated and on \<^verbatim>\<open>not json\<close>, a SyntaxError; the
  string of the numbers 0, 1 and 150; the properties of \<^verbatim>\<open>Object.prototype\<close>. No
  example converts a string to a number.
\<close>

definition payload1 :: string where
  "payload1 = ''{\"tokensIn\":10,\"tokensOut\":20,\"cost\":0.005,\"duration\":150,\"provider\":\"openai\",\"modelId\":\"gpt-4\"}''"

definition payload2 :: string where
  "payload2 = ''{\"tokensIn\":7,\"cacheWrites\":3,\"duration\":0,\"provider\":\"openai\"}''"

definition payload3 :: string where
  "payload3 = ''{\"duration\":150}''"

definition payload4 :: string where
  "payload4 = ''{\"tokensIn\":5,\"duration\":1,\"provider\":{\"toString\":1}}''"

definition payload5 :: string where
  "payload5 = ''{\"duration\":150,\"provider\":\"constructor\"}''"

definition payload6 :: string where
  "payload6 = ''{\"tokensIn\":1,\"tokensOut\":2,\"cacheWrites\":4,\"cacheReads\":8,\"provider\":\"openai\"}''"

definition payload7 :: string where
  "payload7 = ''{\"startTime\":1000,\"endTime\":1300}''"

definition payload8 :: string where
  "payload8 = ''{\"startTime\":1300,\"endTime\":1000,\"provider\":\"openai\"}''"

definition node_JSON_parse :: "string \<Rightarrow> json option" where
  "node_JSON_parse =
     map_of
       [(payload1,
         JObj [(''tokensIn'', JNum 10), (''tokensOut'', JNum 20), (''cost'', JNum (5 / 1000)),
               (''duration'', JNum 150), (''provider'', JStr ''openai''),
               (''modelId'', JStr ''gpt-4'')]),
        (payload2,
         JObj [(''tokensIn'', JNum 7), (''cacheWrites'', JNum 3), (''duration'', JNum 0),
               (''provider'', JStr ''openai'')]),
        (payload3, JObj [(''duration'', JNum 150)]),
        (payload4,
         JObj [(''tokensIn'', JNum 5), (''duration'', JNum 1),
               (''provider'', JObj [(''toString'', JNum 1)])]),
        (payload5, JObj [(''duration'', JNum 150), (''provider'', JStr ''constructor'')]),
        (payload6,
         JObj [(''tokensIn'', JNum 1), (''tokensOut'', JNum 2), (''cacheWrites'', JNum 4),
               (''cacheReads'', JNum 8), (''provider'', JStr ''openai'')]),
        (payload7, JObj [(''startTime'', JNum 1000), (''endTime'', JNum 1300)]),
        (payload8,
         JObj [(''startTime'', JNum 1300), (''endTime'', JNum 1000),
               (''provider'', JStr ''openai'')]),
        (''null'', JNull),
        (''5'', JNum 5)]"

definition node_ObjectPrototype :: "string \<Rightarrow> string option" where
  "node_ObjectPrototype =
     map_of
       [(''constructor'', ''function Object() { [native code] }''),
        (''__defineGetter__'', ''function __defineGetter__() { [native code] }''),
        (''__defineSetter__'', ''function __defineSetter__() { [native code] }''),
        (''hasOwnProperty'', ''function hasOwnProperty() { [native code] }''),
        (''__lookupGetter__'', ''function __lookupGetter__() { [native code] }''),
        (''__lookupSetter__'', ''function __lookupSetter__() { [native code] }''),
        (''isPrototypeOf'', ''function isPrototypeOf() { [native code] }''),
        (''propertyIsEnumerable'', ''function propertyIsEnumerable() { [native code] }''),
        (''toString'', ''function toString() { [native code] }''),
        (''valueOf'', ''function valueOf() { [native code] }''),
        (''toLocaleString'', ''function toLocaleString() { [native code] }''),
        (''__proto__'', ''[object Object]'')]"

definition node :: runtime where
  "node =
     \<lparr> JSON_parse = node_JSON_parse,
       NumberToString = (\<lambda>n. if n = 1 then ''1'' else if n = 150 then ''150'' else ''0''),
       StringToNumber = (\<lambda>s. None),
       ObjectPrototype = node_ObjectPrototype \<rparr>"


text \<open>An API-request-start message with the given timestamp and text.\<close>

definition api_req_started :: "number \<Rightarrow> string \<Rightarrow> ClineMessage" where
  "api_req_started t s = \<lparr> ts = t, type = Say, say = Some ''api_req_started'', msg_text = Some s \<rparr>"

text \<open>A message that is not an API-request-start.\<close>

definition ask_message :: ClineMessage where
  "ask_message = \<lparr> ts = 1, type = Ask, say = None, msg_text = Some ''not json'' \<rparr>"

section \<open>The callback, field by field\<close>

lemma add_usage_fields:
  "requestCount (add_usage f r) = requestCount r + 1"
  "totalDuration (add_usage f r) = totalDuration r"
  "averageDuration (add_usage f r) = averageDuration r"
  "performanceHistory (add_usage f r) = performanceHistory r"
  "requestsByProvider (add_usage f r) = requestsByProvider r"
  "durationByProvider (add_usage f r) = durationByProvider r"
  "requestsByModel (add_usage f r) = requestsByModel r"
  "durationByModel (add_usage f r) = durationByModel r"
  "contextTokens (add_usage f r) = contextTokens r"
  by (simp_all add: add_usage_def Let_def split: option.splits)

lemma add_usage_cache:
  "totalCacheWrites (add_usage f r) =
     (case typeof_number (f ''cacheWrites'') of
        None \<Rightarrow> totalCacheWrites r
      | Some n \<Rightarrow> Some ((case totalCacheWrites r of None \<Rightarrow> 0 | Some w \<Rightarrow> w) + n))"
  "totalCacheReads (add_usage f r) =
     (case typeof_number (f ''cacheReads'') of
        None \<Rightarrow> totalCacheReads r
      | Some n \<Rightarrow> Some ((case totalCacheReads r of None \<Rightarrow> 0 | Some w \<Rightarrow> w) + n))"
  by (simp_all add: add_usage_def Let_def split: option.splits)

lemma set_contextTokens_fields:
  "requestCount (set_contextTokens rt l i m r) = requestCount r"
  "totalDuration (set_contextTokens rt l i m r) = totalDuration r"
  "averageDuration (set_contextTokens rt l i m r) = averageDuration r"
  "performanceHistory (set_contextTokens rt l i m r) = performanceHistory r"
  "requestsByProvider (set_contextTokens rt l i m r) = requestsByProvider r"
  "durationByProvider (set_contextTokens rt l i m r) = durationByProvider r"
  "requestsByModel (set_contextTokens rt l i m r) = requestsByModel r"
  "durationByModel (set_contextTokens rt l i m r) = durationByModel r"
  "totalCacheWrites (set_contextTokens rt l i m r) = totalCacheWrites r"
  "totalCacheReads (set_contextTokens rt l i m r) = totalCacheReads r"
  "totalTokensIn (set_contextTokens rt l i m r) = totalTokensIn r"
  "totalTokensOut (set_contextTokens rt l i m r) = totalTokensOut r"
  "totalCost (set_contextTokens rt l i m r) = totalCost r"
  by (simp_all add: set_contextTokens_def)

lemma body_requestCount:
  "requestCount (fst (callback_body rt l r i m f)) = requestCount r + 1"
  by (simp add: callback_body_def Let_def add_usage_fields set_contextTokens_fields
      split: sum.splits)

lemma body_averageDuration:
  "averageDuration (fst (callback_body rt l r i m f)) = averageDuration r"
  by (simp add: callback_body_def Let_def add_usage_fields set_contextTokens_fields
      split: sum.splits)

lemma body_totalDuration:
  "totalDuration (fst (callback_body rt l r i m f)) =
     totalDuration r + (if 0 < requestDuration f then requestDuration f else 0)"
  by (simp add: callback_body_def Let_def add_usage_fields set_contextTokens_fields
      split: sum.splits)

lemma body_performanceHistory:
  "performanceHistory (fst (callback_body rt l r i m f)) =
     performanceHistory r @
       (if 0 < requestDuration f then [history_entry m f (requestDuration f)] else [])"
  by (simp add: callback_body_def Let_def add_usage_fields set_contextTokens_fields
      split: sum.splits)

lemma body_cache:
  "totalCacheWrites (fst (callback_body rt l r i m f)) = totalCacheWrites (add_usage f r)"
  "totalCacheReads (fst (callback_body rt l r i m f)) = totalCacheReads (add_usage f r)"
  by (simp_all add: callback_body_def Let_def set_contextTokens_fields split: sum.splits)

text \<open>
  The callback never lets an exception out, so the loop runs to the end of the list and
  \<^verbatim>\<open>getApiMetrics\<close> returns the record that \<open>steps\<close> computes, with its average.
\<close>

lemma callback_step:
  "\<exists>c'. callback rt l (r, c) i m = Inr (step rt l r i m, c')"
  by (auto simp: callback_def step_def payload_def parsed_def callback_try_def
      split: option.splits prod.splits)

lemma forEach_steps:
  "\<exists>c'. forEach (callback rt l) (r, c) i ms = Inr (steps rt l r i ms, c')"
proof (induction ms arbitrary: r c i)
  case Nil
  show ?case by simp
next
  case (Cons m ms)
  obtain c1 where "callback rt l (r, c) i m = Inr (step rt l r i m, c1)"
    using callback_step by blast
  with Cons.IH [of "step rt l r i m" c1 "Suc i"] show ?case by simp
qed

lemma getApiMetrics_steps:
  "\<exists>c'. getApiMetrics rt ms c =
     Inr (set_averageDuration (steps rt (lastApiReq rt ms) result0 0 ms), c')"
proof -
  obtain c' where "forEach (callback rt (lastApiReq rt ms)) (result0, c) 0 ms =
      Inr (steps rt (lastApiReq rt ms) result0 0 ms, c')"
    using forEach_steps by blast
  then show ?thesis by (simp add: getApiMetrics_def)
qed

section \<open>The example runtime on the example texts\<close>

lemma node_parse:
  "JSON_parse node payload1 =
     Some (JObj [(''tokensIn'', JNum 10), (''tokensOut'', JNum 20), (''cost'', JNum (5 / 1000)),
               (''duration'', JNum 150), (''provider'', JStr ''openai''),
               (''modelId'', JStr ''gpt-4'')])"
  "JSON_parse node payload2 =
     Some (JObj [(''tokensIn'', JNum 7), (''cacheWrites'', JNum 3), (''duration'', JNum 0),
               (''provider'', JStr ''openai'')])"
  "JSON_parse node payload3 = Some (JObj [(''duration'', JNum 150)])"
  "JSON_parse node payload4 =
     Some (JObj [(''tokensIn'', JNum 5), (''duration'', JNum 1),
               (''provider'', JObj [(''toString'', JNum 1)])])"
  "JSON_parse node payload5 =
     Some (JObj [(''duration'', JNum 150), (''provider'', JStr ''constructor'')])"
  "JSON_parse node ''null'' = Some JNull"
  "JSON_parse node ''5'' = Some (JNum 5)"
  "JSON_parse node ''not json'' = None"
  by (simp_all add: node_def node_JSON_parse_def payload1_def payload2_def payload3_def
      payload4_def payload5_def payload6_def payload7_def payload8_def)

lemma node_payload_nonempty:
  "payload1 \<noteq> []" "payload2 \<noteq> []" "payload3 \<noteq> []" "payload4 \<noteq> []" "payload5 \<noteq> []"
  by (simp_all add: payload1_def payload2_def payload3_def payload4_def payload5_def)

lemma node_parse_more:
  "JSON_parse node payload6 =
     Some (JObj [(''tokensIn'', JNum 1), (''tokensOut'', JNum 2), (''cacheWrites'', JNum 4),
               (''cacheReads'', JNum 8), (''provider'', JStr ''openai'')])"
  "JSON_parse node payload7 = Some (JObj [(''startTime'', JNum 1000), (''endTime'', JNum 1300)])"
  "JSON_parse node payload8 =
     Some (JObj [(''startTime'', JNum 1300), (''endTime'', JNum 1000),
               (''provider'', JStr ''openai'')])"
  "payload6 \<noteq> []" "payload7 \<noteq> []" "payload8 \<noteq> []"
  by (simp_all add: node_def node_JSON_parse_def payload1_def payload2_def payload3_def
      payload4_def payload5_def payload6_def payload7_def payload8_def)


lemma node_runtime:
  "NumberToString node 1 = ''1''"
  "NumberToString node 150 = ''150''"
  "ObjectPrototype node ''constructor'' = Some ''function Object() { [native code] }''"
  "ObjectPrototype node ''openai'' = None"
  "ObjectPrototype node ''gpt-4'' = None"
  by (simp_all add: node_def node_ObjectPrototype_def)

lemmas run_defs =
  getApiMetrics_def callback_def callback_try_def callback_body_def lastApiReq_def
  is_api_req_started_def is_lastApiReq_def getTotalTokensFromMessage_def totalTokens_try_def
  or0_def js_plus_def js_gt0_def add_usage_def requestDuration_def history_entry_def track_def
  get_or0_def obj_set_def set_contextTokens_def set_averageDuration_def result0_def
  api_req_started_def enumerate_eq_zip Let_def

text \<open>The first scenario of the specification: one request of 150 ms.\<close>

lemma example1_run:
  "case getApiMetrics node [api_req_started 1000 payload1] [] of
     Inl e \<Rightarrow> False
   | Inr (r, c) \<Rightarrow> totalDuration r = 150 \<and> requestCount r = 1 \<and> averageDuration r = 150"
  by (simp add: run_defs node_parse node_payload_nonempty node_runtime)

section \<open>The average duration\<close>

lemma step_averageDuration: "averageDuration (step rt l r i m) = averageDuration r"
  by (simp add: step_def body_averageDuration split: option.splits)

lemma steps_averageDuration: "averageDuration (steps rt l r i ms) = averageDuration r"
  by (induction ms arbitrary: r i) (simp_all add: step_averageDuration)

lemma set_averageDuration_eq:
  "averageDuration r = 0 \<Longrightarrow>
   averageDuration (set_averageDuration r) =
     (if 0 < totalDuration (set_averageDuration r) \<and> 0 < requestCount (set_averageDuration r)
      then totalDuration (set_averageDuration r) / requestCount (set_averageDuration r)
      else 0)"
  by (auto simp: set_averageDuration_def)

text \<open>
  Claim C8. For every sequence of messages, \<^verbatim>\<open>getApiMetrics\<close> returns a record whose
  \<^verbatim>\<open>averageDuration\<close> is \<^verbatim>\<open>totalDuration / requestCount\<close> when both are strictly
  positive, and 0 otherwise.
\<close>

theorem averageDuration_is_mean:
  "\<exists>r c'. getApiMetrics rt messages console = Inr (r, c') \<and>
     averageDuration r =
       (if 0 < totalDuration r \<and> 0 < requestCount r then totalDuration r / requestCount r else 0)"
proof -
  let ?R = "steps rt (lastApiReq rt messages) result0 0 messages"
  obtain c' where run: "getApiMetrics rt messages console = Inr (set_averageDuration ?R, c')"
    using getApiMetrics_steps by blast
  have "averageDuration ?R = 0"
    by (simp add: steps_averageDuration result0_def)
  then show ?thesis
    using run set_averageDuration_eq [of ?R] by blast
qed

theorem averageDuration_is_mean_witness:
  "\<exists>r c'. getApiMetrics node [api_req_started 1000 payload1] [] = Inr (r, c') \<and>
     totalDuration r = 150 \<and> requestCount r = 1 \<and> averageDuration r = 150 / 1"
proof -
  obtain r c' where
    run: "getApiMetrics node [api_req_started 1000 payload1] [] = Inr (r, c')" and
    avg: "averageDuration r =
       (if 0 < totalDuration r \<and> 0 < requestCount r then totalDuration r / requestCount r else 0)"
    using averageDuration_is_mean [of node "[api_req_started 1000 payload1]" "[]"] by blast
  from run example1_run have "totalDuration r = 150" "requestCount r = 1" by simp_all
  with run avg show ?thesis by simp
qed

section \<open>The request count\<close>

lemma processed_iff:
  "processed rt m \<longleftrightarrow> parsable rt m \<and> parsed rt m \<noteq> Some JNull"
proof (cases "parsed rt m")
  case None
  then show ?thesis
    by (auto simp: processed_def payload_def parsable_def parsed_def split: option.splits if_splits)
next
  case (Some j)
  then have "parsable rt m"
    by (auto simp: parsable_def parsed_def split: option.splits if_splits)
  with Some show ?thesis
    by (cases j) (simp_all add: processed_def payload_def)
qed

lemma step_requestCount:
  "requestCount (step rt l r i m) = requestCount r + (if processed rt m then 1 else 0)"
  by (simp add: step_def processed_def body_requestCount split: option.splits)

lemma steps_requestCount:
  "requestCount (steps rt l r i ms) = requestCount r + of_nat (length (filter (processed rt) ms))"
  by (induction ms arbitrary: r i) (simp_all add: step_requestCount)

lemma set_averageDuration_fields:
  "requestCount (set_averageDuration r) = requestCount r"
  "totalDuration (set_averageDuration r) = totalDuration r"
  "performanceHistory (set_averageDuration r) = performanceHistory r"
  "totalCacheWrites (set_averageDuration r) = totalCacheWrites r"
  "totalCacheReads (set_averageDuration r) = totalCacheReads r"
  "contextTokens (set_averageDuration r) = contextTokens r"
  "requestsByProvider (set_averageDuration r) = requestsByProvider r"
  "durationByProvider (set_averageDuration r) = durationByProvider r"
  "requestsByModel (set_averageDuration r) = requestsByModel r"
  "durationByModel (set_averageDuration r) = durationByModel r"
  by (simp_all add: set_averageDuration_def)

text \<open>
  Claim C2, as the code has it. For every sequence of messages, \<^verbatim>\<open>requestCount\<close> is the
  number of events tagged as API-request-start whose text is JSON-parsable and parses to
  a value other than \<^verbatim>\<open>null\<close>. Numbers, strings, booleans and arrays count;
  \<^verbatim>\<open>null\<close> does not, because destructuring it throws and the \<^verbatim>\<open>catch\<close> skips the
  event before the count is incremented.
\<close>

theorem requestCount_counts_processed:
  "\<exists>r c'. getApiMetrics rt messages console = Inr (r, c') \<and>
     requestCount r =
       of_nat (length (filter (\<lambda>m. parsable rt m \<and> parsed rt m \<noteq> Some JNull) messages))"
proof -
  let ?R = "steps rt (lastApiReq rt messages) result0 0 messages"
  obtain c' where run: "getApiMetrics rt messages console = Inr (set_averageDuration ?R, c')"
    using getApiMetrics_steps by blast
  have "filter (processed rt) messages =
      filter (\<lambda>m. parsable rt m \<and> parsed rt m \<noteq> Some JNull) messages"
    by (rule filter_cong) (simp_all add: processed_iff)
  then have "requestCount (set_averageDuration ?R) =
      of_nat (length (filter (\<lambda>m. parsable rt m \<and> parsed rt m \<noteq> Some JNull) messages))"
    by (simp add: set_averageDuration_fields steps_requestCount result0_def)
  with run show ?thesis by blast
qed

text \<open>
  Four API-request-start events: an object, \<^verbatim>\<open>null\<close>, the number 5 and a text that is
  not JSON. Two of them are counted.
\<close>

theorem requestCount_counts_processed_witness:
  "\<exists>r c'. getApiMetrics node
       [api_req_started 1000 payload1, api_req_started 1001 ''null'',
        api_req_started 1002 ''5'', api_req_started 1003 ''not json''] [] = Inr (r, c') \<and>
     requestCount r = 2"
proof -
  let ?ms = "[api_req_started 1000 payload1, api_req_started 1001 ''null'',
        api_req_started 1002 ''5'', api_req_started 1003 ''not json'']"
  have "length (filter (\<lambda>m. parsable node m \<and> parsed node m \<noteq> Some JNull) ?ms) = 2"
    by (simp add: parsable_def parsed_def is_api_req_started_def api_req_started_def
        node_parse node_payload_nonempty)
  with requestCount_counts_processed [of node ?ms "[]"] show ?thesis by simp
qed

lemma example_null_run:
  "getApiMetrics node [api_req_started 1000 ''null''] [] = Inr (result0, [TypeError])"
  by (simp add: run_defs node_parse)

lemma example_null_parsable:
  "parsable node (api_req_started 1000 ''null'')"
  "parsed node (api_req_started 1000 ''null'') = Some JNull"
  by (simp_all add: parsable_def parsed_def is_api_req_started_def api_req_started_def node_parse)

text \<open>
  The claim as stated fails on one API-request-start event whose text is \<^verbatim>\<open>null\<close>: the
  text is JSON-parsable, one such event is in the sequence, and \<^verbatim>\<open>requestCount\<close> is 0.
\<close>

theorem requestCount_null_counterexample:
  "getApiMetrics node [api_req_started 1000 ''null''] [] = Inr (result0, [TypeError]) \<and>
   requestCount result0 = 0 \<and>
   parsed node (api_req_started 1000 ''null'') = Some JNull \<and>
   length (filter (parsable node) [api_req_started 1000 ''null'']) = 1"
  using example_null_run example_null_parsable by (simp add: result0_def)

section \<open>What the record depends on\<close>

text \<open>
  In one runtime the record depends on the sequence of messages only: the console is
  written and never read, so two calls on the same sequence return the same record
  whatever the console holds, in particular when the second call follows the first.
\<close>

lemma getApiMetrics_ignores_console:
  "\<exists>r c1 c2. getApiMetrics rt messages console1 = Inr (r, c1) \<and>
     getApiMetrics rt messages console2 = Inr (r, c2)"
proof -
  let ?r = "set_averageDuration (steps rt (lastApiReq rt messages) result0 0 messages)"
  obtain c1 where "getApiMetrics rt messages console1 = Inr (?r, c1)"
    using getApiMetrics_steps by blast
  moreover obtain c2 where "getApiMetrics rt messages console2 = Inr (?r, c2)"
    using getApiMetrics_steps by blast
  ultimately show ?thesis by blast
qed


section \<open>No exception reaches the caller\<close>

lemma forEach_no_api:
  "\<forall>m\<in>set ms. \<not> is_api_req_started m \<Longrightarrow> forEach (callback rt l) w i ms = Inr w"
  by (induction ms arbitrary: i) (simp_all add: callback_def split: option.splits)

lemma steps_unprocessed:
  "\<forall>m\<in>set ms. \<not> processed rt m \<Longrightarrow> steps rt l r i ms = r"
  by (induction ms arbitrary: i) (simp_all add: step_def processed_def)

lemma set_averageDuration_result0: "set_averageDuration result0 = result0"
  by (simp add: set_averageDuration_def result0_def)

text \<open>
  Claim C6. \<^verbatim>\<open>getApiMetrics\<close> returns a record for every sequence of messages and
  never throws. On the empty sequence and on a sequence \<open>quiet\<close> with no
  API-request-start event it returns the initial record and leaves the console alone; on
  a sequence \<open>broken\<close> in which no API-request-start event has a parsable text it returns
  the initial record.
\<close>

theorem getApiMetrics_returns:
  "(\<exists>r c'. getApiMetrics rt messages console = Inr (r, c')) \<and>
   getApiMetrics rt [] console = Inr (result0, console) \<and>
   ((\<forall>m\<in>set quiet. \<not> is_api_req_started m) \<longrightarrow>
      getApiMetrics rt quiet console = Inr (result0, console)) \<and>
   ((\<forall>m\<in>set broken. \<not> parsable rt m) \<longrightarrow>
      (\<exists>c'. getApiMetrics rt broken console = Inr (result0, c')))"
proof (intro conjI impI)
  show "\<exists>r c'. getApiMetrics rt messages console = Inr (r, c')"
    using getApiMetrics_steps by blast
  show "getApiMetrics rt [] console = Inr (result0, console)"
    by (simp add: getApiMetrics_def set_averageDuration_result0)
next
  assume "\<forall>m\<in>set quiet. \<not> is_api_req_started m"
  then show "getApiMetrics rt quiet console = Inr (result0, console)"
    by (simp add: getApiMetrics_def forEach_no_api set_averageDuration_result0)
next
  assume "\<forall>m\<in>set broken. \<not> parsable rt m"
  then have "\<forall>m\<in>set broken. \<not> processed rt m"
    by (simp add: processed_iff)
  then have "steps rt (lastApiReq rt broken) result0 0 broken = result0"
    by (rule steps_unprocessed)
  with getApiMetrics_steps [of rt broken console]
  show "\<exists>c'. getApiMetrics rt broken console = Inr (result0, c')"
    by (simp add: set_averageDuration_result0)
qed

theorem getApiMetrics_returns_witness:
  "\<not> is_api_req_started ask_message \<and>
   getApiMetrics node [ask_message] [] = Inr (result0, []) \<and>
   \<not> parsable node (api_req_started 1 ''not json'') \<and>
   \<not> parsable node (api_req_started 2 ''not json'') \<and>
   (\<exists>c'. getApiMetrics node [api_req_started 1 ''not json'', api_req_started 2 ''not json''] []
       = Inr (result0, c'))"
proof -
  have q: "\<not> is_api_req_started ask_message"
    by (simp add: ask_message_def is_api_req_started_def)
  have b: "\<not> parsable node (api_req_started 1 ''not json'')"
    "\<not> parsable node (api_req_started 2 ''not json'')"
    by (simp_all add: parsable_def api_req_started_def node_parse)
  from q have q': "\<forall>m\<in>set [ask_message]. \<not> is_api_req_started m"
    by simp
  from b have b': "\<forall>m\<in>set [api_req_started 1 ''not json'', api_req_started 2 ''not json''].
      \<not> parsable node m"
    by simp
  from q' b' getApiMetrics_returns
    [of node "[]" "[]" "[ask_message]" "[api_req_started 1 ''not json'', api_req_started 2 ''not json'']"]
  have "getApiMetrics node [ask_message] [] = Inr (result0, []) \<and>
   (\<exists>c'. getApiMetrics node [api_req_started 1 ''not json'', api_req_started 2 ''not json''] []
       = Inr (result0, c'))"
    by blast
  with q b show ?thesis by blast
qed

section \<open>The cache totals\<close>

lemma step_cache:
  "totalCacheWrites (step rt l r i m) =
     (case numeric_occurrences rt ''cacheWrites'' [m] of
        [] \<Rightarrow> totalCacheWrites r
      | n # ns \<Rightarrow> Some ((case totalCacheWrites r of None \<Rightarrow> 0 | Some w \<Rightarrow> w) + n))"
  "totalCacheReads (step rt l r i m) =
     (case numeric_occurrences rt ''cacheReads'' [m] of
        [] \<Rightarrow> totalCacheReads r
      | n # ns \<Rightarrow> Some ((case totalCacheReads r of None \<Rightarrow> 0 | Some w \<Rightarrow> w) + n))"
  by (simp_all add: step_def numeric_occurrences_def body_cache add_usage_cache
      split: option.splits)

lemma numeric_occurrences_Cons:
  "numeric_occurrences rt k (m # ms) = numeric_occurrences rt k [m] @ numeric_occurrences rt k ms"
  by (simp add: numeric_occurrences_def split: option.splits)

lemma numeric_occurrences_single:
  "numeric_occurrences rt k [m] = [] \<or> (\<exists>n. numeric_occurrences rt k [m] = [n])"
  by (simp add: numeric_occurrences_def split: option.splits)

lemma steps_cacheWrites:
  "totalCacheWrites (steps rt l r i ms) =
     (if numeric_occurrences rt ''cacheWrites'' ms = [] then totalCacheWrites r
      else Some ((case totalCacheWrites r of None \<Rightarrow> 0 | Some w \<Rightarrow> w) +
                 sum_list (numeric_occurrences rt ''cacheWrites'' ms)))"
proof (induction ms arbitrary: r i)
  case Nil
  show ?case by (simp add: numeric_occurrences_def)
next
  case (Cons m ms)
  from numeric_occurrences_single [of rt "''cacheWrites''" m] show ?case
    by (auto simp: Cons.IH step_cache numeric_occurrences_Cons [of rt _ m ms] split: option.splits)
qed

lemma steps_cacheReads:
  "totalCacheReads (steps rt l r i ms) =
     (if numeric_occurrences rt ''cacheReads'' ms = [] then totalCacheReads r
      else Some ((case totalCacheReads r of None \<Rightarrow> 0 | Some w \<Rightarrow> w) +
                 sum_list (numeric_occurrences rt ''cacheReads'' ms)))"
proof (induction ms arbitrary: r i)
  case Nil
  show ?case by (simp add: numeric_occurrences_def)
next
  case (Cons m ms)
  from numeric_occurrences_single [of rt "''cacheReads''" m] show ?case
    by (auto simp: Cons.IH step_cache numeric_occurrences_Cons [of rt _ m ms] split: option.splits)
qed

text \<open>
  Claim C7. \<^verbatim>\<open>totalCacheWrites\<close> is absent exactly when no processed event carries a
  numeric \<^verbatim>\<open>cacheWrites\<close>; otherwise it is the sum of the numeric occurrences, the
  first of them taking the field from absent to present (see \<open>step_cache\<close>). The same
  holds of \<^verbatim>\<open>totalCacheReads\<close> and \<^verbatim>\<open>cacheReads\<close>.
\<close>

theorem cache_totals:
  "\<exists>r c'. getApiMetrics rt messages console = Inr (r, c') \<and>
     totalCacheWrites r =
       (if numeric_occurrences rt ''cacheWrites'' messages = [] then None
        else Some (sum_list (numeric_occurrences rt ''cacheWrites'' messages))) \<and>
     totalCacheReads r =
       (if numeric_occurrences rt ''cacheReads'' messages = [] then None
        else Some (sum_list (numeric_occurrences rt ''cacheReads'' messages)))"
proof -
  let ?R = "steps rt (lastApiReq rt messages) result0 0 messages"
  obtain c' where run: "getApiMetrics rt messages console = Inr (set_averageDuration ?R, c')"
    using getApiMetrics_steps by blast
  have "totalCacheWrites (set_averageDuration ?R) =
       (if numeric_occurrences rt ''cacheWrites'' messages = [] then None
        else Some (sum_list (numeric_occurrences rt ''cacheWrites'' messages)))"
    by (simp add: set_averageDuration_fields steps_cacheWrites result0_def)
  moreover have "totalCacheReads (set_averageDuration ?R) =
       (if numeric_occurrences rt ''cacheReads'' messages = [] then None
        else Some (sum_list (numeric_occurrences rt ''cacheReads'' messages)))"
    by (simp add: set_averageDuration_fields steps_cacheReads result0_def)
  ultimately show ?thesis using run by blast
qed

theorem cache_totals_witness:
  "\<exists>r c'. getApiMetrics node
       [api_req_started 1000 payload1, api_req_started 1001 payload2, api_req_started 1002 payload2] []
       = Inr (r, c') \<and>
     totalCacheWrites r = Some 6 \<and> totalCacheReads r = None"
proof -
  let ?ms = "[api_req_started 1000 payload1, api_req_started 1001 payload2, api_req_started 1002 payload2]"
  have "numeric_occurrences node ''cacheWrites'' ?ms = [3, 3]"
    "numeric_occurrences node ''cacheReads'' ?ms = []"
    by (simp_all add: numeric_occurrences_def payload_def parsed_def
        is_api_req_started_def api_req_started_def node_parse node_payload_nonempty)
  with cache_totals [of node ?ms "[]"] show ?thesis by simp
qed

section \<open>The total duration\<close>

lemma step_totalDuration:
  "totalDuration (step rt l r i m) =
     totalDuration r + (if 0 < derivedDuration rt m then derivedDuration rt m else 0)"
  by (simp add: step_def derivedDuration_def body_totalDuration split: option.splits)

lemma steps_totalDuration:
  "totalDuration (steps rt l r i ms) =
     totalDuration r + sum_list (filter (\<lambda>d. 0 < d) (map (derivedDuration rt) ms))"
  by (induction ms arbitrary: r i) (simp_all add: step_totalDuration)

lemma body_no_duration:
  assumes "\<not> 0 < requestDuration f"
  shows "totalDuration (fst (callback_body rt l r i m f)) = totalDuration r"
    and "performanceHistory (fst (callback_body rt l r i m f)) = performanceHistory r"
    and "requestsByProvider (fst (callback_body rt l r i m f)) = requestsByProvider r"
    and "durationByProvider (fst (callback_body rt l r i m f)) = durationByProvider r"
    and "requestsByModel (fst (callback_body rt l r i m f)) = requestsByModel r"
    and "durationByModel (fst (callback_body rt l r i m f)) = durationByModel r"
  using assms
  by (simp_all add: callback_body_def Let_def add_usage_fields set_contextTokens_fields)

text \<open>
  The duration the callback computes is the derived duration as the claim words it, on
  every parsed value that can be destructured; \<^verbatim>\<open>null\<close> cannot, and its derived
  duration is 0 by the claim's rule.
\<close>

lemma destructure_field_of:
  "destructure j = (if j = JNull then None else Some (field_of j))"
  by (cases j) (auto intro!: ext)

lemma payload_parsed:
  "payload rt m = (case parsed rt m of None \<Rightarrow> None | Some j \<Rightarrow> if j = JNull then None else Some (field_of j))"
  by (simp add: payload_def destructure_field_of split: option.splits)

lemma typeof_number_field_of: "typeof_number (field_of j k) = number_at j k"
  by (cases "field_of j k" rule: typeof_number.cases) (simp_all add: number_at_def)

lemma requestDuration_rule: "requestDuration (field_of j) = duration_rule j"
  by (simp add: requestDuration_def duration_rule_def typeof_number_field_of
      split: option.splits)

lemma duration_rule_JNull: "duration_rule JNull = 0"
  by (simp add: duration_rule_def number_at_def)

lemma derived_stated:
  "(if 0 < derivedDuration rt m then [derivedDuration rt m] else []) =
   filter (\<lambda>d. 0 < d) (List.map_filter (stated_duration rt) [m])"
proof (cases "parsed rt m")
  case None
  then show ?thesis
    by (simp add: derivedDuration_def payload_parsed stated_duration_def)
next
  case (Some j)
  then show ?thesis
    by (cases "j = JNull")
      (simp_all add: derivedDuration_def payload_parsed stated_duration_def
        requestDuration_rule duration_rule_JNull)
qed

lemma map_filter_Cons_append: "List.map_filter f (x # xs) = List.map_filter f [x] @ List.map_filter f xs"
  by (simp add: split: option.splits)

lemma positive_durations:
  "filter (\<lambda>d. 0 < d) (map (derivedDuration rt) ms) =
   filter (\<lambda>d. 0 < d) (List.map_filter (stated_duration rt) ms)"
proof (induction ms)
  case Nil
  show ?case by (simp add:)
next
  case (Cons m ms)
  have "filter (\<lambda>d. 0 < d) (map (derivedDuration rt) (m # ms)) =
      (if 0 < derivedDuration rt m then [derivedDuration rt m] else []) @
      filter (\<lambda>d. 0 < d) (map (derivedDuration rt) ms)"
    by simp
  also have "\<dots> = filter (\<lambda>d. 0 < d) (List.map_filter (stated_duration rt) [m]) @
      filter (\<lambda>d. 0 < d) (List.map_filter (stated_duration rt) ms)"
    by (simp only: derived_stated Cons.IH)
  also have "\<dots> = filter (\<lambda>d. 0 < d) (List.map_filter (stated_duration rt) (m # ms))"
    by (simp only: map_filter_Cons_append [of _ m ms] filter_append)
  finally show ?case .
qed

text \<open>
  Claim C3, as the code has it. \<^verbatim>\<open>totalDuration\<close> is the sum of the derived durations
  (the \<^verbatim>\<open>duration\<close> field when it is a number, else \<^verbatim>\<open>endTime - startTime\<close> when
  both are numbers, else 0) over exactly the API-request-start events whose derived
  duration is strictly positive. An event \<open>m\<close> whose derived duration \<open>d\<close> is zero or
  negative adds nothing to \<^verbatim>\<open>totalDuration\<close>, \<^verbatim>\<open>performanceHistory\<close> and the four
  maps, whatever the record \<open>r\<close> the callback finds; it still increments
  \<^verbatim>\<open>requestCount\<close>, unless its payload is \<^verbatim>\<open>null\<close>: that event is skipped
  altogether.
\<close>

theorem totalDuration_sums_stated:
  "(\<exists>r c'. getApiMetrics rt messages console = Inr (r, c') \<and>
      totalDuration r =
        sum_list (filter (\<lambda>d. 0 < d) (List.map_filter (stated_duration rt) messages))) \<and>
   (stated_duration rt m = Some d \<and> d \<le> 0 \<longrightarrow>
      (\<exists>r' c'. callback rt lastReq (r, c) i m = Inr (r', c') \<and>
         totalDuration r' = totalDuration r \<and>
         performanceHistory r' = performanceHistory r \<and>
         durationByProvider r' = durationByProvider r \<and>
         durationByModel r' = durationByModel r \<and>
         requestsByProvider r' = requestsByProvider r \<and>
         requestsByModel r' = requestsByModel r \<and>
         requestCount r' = requestCount r + (if parsed rt m = Some JNull then 0 else 1)))"
proof (intro conjI impI)
  let ?R = "steps rt (lastApiReq rt messages) result0 0 messages"
  obtain c' where run: "getApiMetrics rt messages console = Inr (set_averageDuration ?R, c')"
    using getApiMetrics_steps by blast
  have "totalDuration (set_averageDuration ?R) =
      sum_list (filter (\<lambda>d. 0 < d) (List.map_filter (stated_duration rt) messages))"
    by (simp add: set_averageDuration_fields steps_totalDuration result0_def positive_durations)
  with run show "\<exists>r c'. getApiMetrics rt messages console = Inr (r, c') \<and>
      totalDuration r =
        sum_list (filter (\<lambda>d. 0 < d) (List.map_filter (stated_duration rt) messages))"
    by blast
next
  assume a: "stated_duration rt m = Some d \<and> d \<le> 0"
  then obtain j where j: "parsed rt m = Some j" and d: "duration_rule j = d"
    by (auto simp: stated_duration_def)
  obtain c' where cb: "callback rt lastReq (r, c) i m = Inr (step rt lastReq r i m, c')"
    using callback_step by blast
  show "\<exists>r' c'. callback rt lastReq (r, c) i m = Inr (r', c') \<and>
         totalDuration r' = totalDuration r \<and>
         performanceHistory r' = performanceHistory r \<and>
         durationByProvider r' = durationByProvider r \<and>
         durationByModel r' = durationByModel r \<and>
         requestsByProvider r' = requestsByProvider r \<and>
         requestsByModel r' = requestsByModel r \<and>
         requestCount r' = requestCount r + (if parsed rt m = Some JNull then 0 else 1)"
  proof (cases "j = JNull")
    case True
    with j have "step rt lastReq r i m = r"
      by (simp add: step_def payload_parsed)
    with cb j True show ?thesis by simp
  next
    case False
    with j have st: "step rt lastReq r i m = fst (callback_body rt lastReq r i m (field_of j))"
      by (simp add: step_def payload_parsed)
    from a d have nd: "\<not> 0 < requestDuration (field_of j)"
      by (simp add: requestDuration_rule)
    from cb j False show ?thesis
      by (simp add: st body_no_duration [OF nd] body_requestCount)
  qed
qed

text \<open>
  Requests of 150 ms, of 300 ms by \<^verbatim>\<open>startTime\<close> and \<^verbatim>\<open>endTime\<close> (the second scenario of
  the specification), of -300 ms by the same two fields, and of 0 ms (the fourth
  scenario); then \<^verbatim>\<open>null\<close> and a text that is not JSON.
\<close>

lemma example_stated:
  "stated_duration node (api_req_started 1000 payload1) = Some 150"
  "stated_duration node (api_req_started 1001 payload7) = Some 300"
  "stated_duration node (api_req_started 1002 payload8) = Some (- 300)"
  "stated_duration node (api_req_started 1003 payload2) = Some 0"
  "stated_duration node (api_req_started 1004 ''null'') = Some 0"
  "stated_duration node (api_req_started 1005 ''not json'') = None"
  "parsed node (api_req_started 1002 payload8) \<noteq> Some JNull"
  "parsed node (api_req_started 1004 ''null'') = Some JNull"
  by (simp_all add: stated_duration_def parsed_def duration_rule_def number_at_def
      is_api_req_started_def api_req_started_def node_parse node_parse_more node_payload_nonempty)

theorem totalDuration_sums_stated_witness:
  "(\<exists>r c'. getApiMetrics node
       [api_req_started 1000 payload1, api_req_started 1001 payload7,
        api_req_started 1002 payload8, api_req_started 1003 payload2,
        api_req_started 1004 ''null'', api_req_started 1005 ''not json''] [] = Inr (r, c') \<and>
      totalDuration r = 450) \<and>
   stated_duration node (api_req_started 1002 payload8) = Some (- 300) \<and>
   (\<exists>r' c'. callback node None (result0, []) 2 (api_req_started 1002 payload8) = Inr (r', c') \<and>
      totalDuration r' = 0 \<and> performanceHistory r' = [] \<and>
      durationByProvider r' = Map.empty \<and> durationByModel r' = Map.empty \<and>
      requestCount r' = 1) \<and>
   stated_duration node (api_req_started 1004 ''null'') = Some 0 \<and>
   (\<exists>r' c'. callback node None (result0, []) 4 (api_req_started 1004 ''null'') = Inr (r', c') \<and>
      totalDuration r' = 0 \<and> performanceHistory r' = [] \<and> requestCount r' = 0)"
proof -
  let ?ms = "[api_req_started 1000 payload1, api_req_started 1001 payload7,
        api_req_started 1002 payload8, api_req_started 1003 payload2,
        api_req_started 1004 ''null'', api_req_started 1005 ''not json'']"
  let ?m8 = "api_req_started 1002 payload8" and ?mn = "api_req_started 1004 ''null''"
  note i8 = totalDuration_sums_stated [of node ?ms "[]" ?m8 "- 300" None result0 "[]" 2]
  note inull = totalDuration_sums_stated [of node ?ms "[]" ?mn 0 None result0 "[]" 4]
  have "sum_list (filter (\<lambda>d. 0 < d) (List.map_filter (stated_duration node) ?ms)) = 450"
    by (simp add: example_stated)
  with i8 have a: "\<exists>r c'. getApiMetrics node ?ms [] = Inr (r, c') \<and> totalDuration r = 450"
    by simp
  have h8: "stated_duration node ?m8 = Some (- 300) \<and> (- 300 :: rat) \<le> 0"
    by (simp add: example_stated)
  from i8 h8 obtain r' c' where
    "callback node None (result0, []) 2 ?m8 = Inr (r', c')"
    "totalDuration r' = totalDuration result0"
    "performanceHistory r' = performanceHistory result0"
    "durationByProvider r' = durationByProvider result0"
    "durationByModel r' = durationByModel result0"
    "requestCount r' = requestCount result0 + (if parsed node ?m8 = Some JNull then 0 else 1)"
    by blast
  then have b: "\<exists>r' c'. callback node None (result0, []) 2 ?m8 = Inr (r', c') \<and>
      totalDuration r' = 0 \<and> performanceHistory r' = [] \<and>
      durationByProvider r' = Map.empty \<and> durationByModel r' = Map.empty \<and>
      requestCount r' = 1"
    by (simp add: result0_def example_stated)
  have hn: "stated_duration node ?mn = Some 0 \<and> (0 :: rat) \<le> 0"
    by (simp add: example_stated)
  from inull hn obtain r' c' where
    "callback node None (result0, []) 4 ?mn = Inr (r', c')"
    "totalDuration r' = totalDuration result0"
    "performanceHistory r' = performanceHistory result0"
    "requestCount r' = requestCount result0 + (if parsed node ?mn = Some JNull then 0 else 1)"
    by blast
  then have c: "\<exists>r' c'. callback node None (result0, []) 4 ?mn = Inr (r', c') \<and>
      totalDuration r' = 0 \<and> performanceHistory r' = [] \<and> requestCount r' = 0"
    by (simp add: result0_def example_stated)
  from a b c h8 hn show ?thesis by blast
qed

text \<open>
  The claim as stated fails on an event whose text is \<^verbatim>\<open>null\<close>: its derived
  duration is 0, and \<^verbatim>\<open>requestCount\<close> is not incremented.
\<close>

theorem zero_duration_null_counterexample:
  "getApiMetrics node [api_req_started 1000 ''null''] [] = Inr (result0, [TypeError]) \<and>
   stated_duration node (api_req_started 1000 ''null'') = Some 0 \<and>
   requestCount result0 = 0"
  using example_null_run
  by (simp add: result0_def stated_duration_def parsed_def duration_rule_def number_at_def
      is_api_req_started_def api_req_started_def node_parse)

section \<open>Defaults of the totals, and the history entries\<close>

lemma add_usage_totals:
  "totalTokensIn (add_usage f r) =
     totalTokensIn r + (case typeof_number (f ''tokensIn'') of None \<Rightarrow> 0 | Some n \<Rightarrow> n)"
  "totalTokensOut (add_usage f r) =
     totalTokensOut r + (case typeof_number (f ''tokensOut'') of None \<Rightarrow> 0 | Some n \<Rightarrow> n)"
  "totalCost (add_usage f r) =
     totalCost r + (case typeof_number (f ''cost'') of None \<Rightarrow> 0 | Some n \<Rightarrow> n)"
  by (simp_all add: add_usage_def Let_def split: option.splits)

lemma body_totals:
  "totalTokensIn (fst (callback_body rt l r i m f)) = totalTokensIn (add_usage f r)"
  "totalTokensOut (fst (callback_body rt l r i m f)) = totalTokensOut (add_usage f r)"
  "totalCost (fst (callback_body rt l r i m f)) = totalCost (add_usage f r)"
  by (simp_all add: callback_body_def Let_def set_contextTokens_fields split: sum.splits)

lemma step_totals:
  "totalTokensIn (step rt l r i m) =
     totalTokensIn r + sum_list (numeric_occurrences rt ''tokensIn'' [m])"
  "totalTokensOut (step rt l r i m) =
     totalTokensOut r + sum_list (numeric_occurrences rt ''tokensOut'' [m])"
  "totalCost (step rt l r i m) = totalCost r + sum_list (numeric_occurrences rt ''cost'' [m])"
  by (simp_all add: step_def numeric_occurrences_def body_totals add_usage_totals
      split: option.splits)

lemma steps_totalTokensIn:
  "totalTokensIn (steps rt l r i ms) =
     totalTokensIn r + sum_list (numeric_occurrences rt ''tokensIn'' ms)"
proof (induction ms arbitrary: r i)
  case Nil
  show ?case by (simp add: numeric_occurrences_def)
next
  case (Cons m ms)
  show ?case
    by (simp add: Cons.IH step_totals numeric_occurrences_Cons [of rt _ m ms])
qed

lemma steps_totalTokensOut:
  "totalTokensOut (steps rt l r i ms) =
     totalTokensOut r + sum_list (numeric_occurrences rt ''tokensOut'' ms)"
proof (induction ms arbitrary: r i)
  case Nil
  show ?case by (simp add: numeric_occurrences_def)
next
  case (Cons m ms)
  show ?case
    by (simp add: Cons.IH step_totals numeric_occurrences_Cons [of rt _ m ms])
qed

lemma steps_totalCost:
  "totalCost (steps rt l r i ms) = totalCost r + sum_list (numeric_occurrences rt ''cost'' ms)"
proof (induction ms arbitrary: r i)
  case Nil
  show ?case by (simp add: numeric_occurrences_def)
next
  case (Cons m ms)
  show ?case
    by (simp add: Cons.IH step_totals numeric_occurrences_Cons [of rt _ m ms])
qed

lemma step_performanceHistory:
  "performanceHistory (step rt l r i m) =
     performanceHistory r @ (if 0 < derivedDuration rt m then [entry_of rt m] else [])"
  by (simp add: step_def derivedDuration_def entry_of_def body_performanceHistory
      split: option.splits)

lemma steps_performanceHistory:
  "performanceHistory (steps rt l r i ms) =
     performanceHistory r @ map (entry_of rt) (filter (\<lambda>m. 0 < derivedDuration rt m) ms)"
  by (induction ms arbitrary: r i) (simp_all add: step_performanceHistory)

lemma entry_of_tokens:
  "entry_tokensIn (entry_of rt m) = payload_field rt m ''tokensIn''"
  "entry_tokensOut (entry_of rt m) = payload_field rt m ''tokensOut''"
  by (simp_all add: entry_of_def payload_field_def history_entry_def split: option.splits)

lemma set_averageDuration_totals:
  "totalTokensIn (set_averageDuration r) = totalTokensIn r"
  "totalTokensOut (set_averageDuration r) = totalTokensOut r"
  "totalCost (set_averageDuration r) = totalCost r"
  by (simp_all add: set_averageDuration_def)

text \<open>
  Claim C5, as the code has it. Every numeric total of the record is present and is a sum
  that starts at 0: \<^verbatim>\<open>totalTokensIn\<close>, \<^verbatim>\<open>totalTokensOut\<close> and \<^verbatim>\<open>totalCost\<close> are the
  sums of the numeric occurrences of their property (0 when there is none), and
  \<^verbatim>\<open>totalDuration\<close>, \<^verbatim>\<open>requestCount\<close> and \<^verbatim>\<open>averageDuration\<close> are as claims C3, C2
  and C8 give them. The entries of \<^verbatim>\<open>performanceHistory\<close> are not defaulted: the
  \<^verbatim>\<open>tokensIn\<close> and \<^verbatim>\<open>tokensOut\<close> of an entry are the payload's own properties, copied
  as they are, and absent when the payload omits them.
\<close>

theorem totals_default_history_copies:
  "\<exists>r c'. getApiMetrics rt messages console = Inr (r, c') \<and>
     totalTokensIn r = sum_list (numeric_occurrences rt ''tokensIn'' messages) \<and>
     totalTokensOut r = sum_list (numeric_occurrences rt ''tokensOut'' messages) \<and>
     totalCost r = sum_list (numeric_occurrences rt ''cost'' messages) \<and>
     performanceHistory r =
       map (entry_of rt) (filter (\<lambda>m. 0 < derivedDuration rt m) messages) \<and>
     map entry_tokensIn (performanceHistory r) =
       map (\<lambda>m. payload_field rt m ''tokensIn'') (filter (\<lambda>m. 0 < derivedDuration rt m) messages) \<and>
     map entry_tokensOut (performanceHistory r) =
       map (\<lambda>m. payload_field rt m ''tokensOut'') (filter (\<lambda>m. 0 < derivedDuration rt m) messages)"
proof -
  let ?R = "steps rt (lastApiReq rt messages) result0 0 messages"
  let ?r = "set_averageDuration ?R"
  obtain c' where run: "getApiMetrics rt messages console = Inr (?r, c')"
    using getApiMetrics_steps by blast
  have h: "performanceHistory ?r =
      map (entry_of rt) (filter (\<lambda>m. 0 < derivedDuration rt m) messages)"
    by (simp add: set_averageDuration_fields steps_performanceHistory result0_def)
  have "totalTokensIn ?r = sum_list (numeric_occurrences rt ''tokensIn'' messages)"
    by (simp add: set_averageDuration_totals steps_totalTokensIn result0_def)
  moreover have "totalTokensOut ?r = sum_list (numeric_occurrences rt ''tokensOut'' messages)"
    by (simp add: set_averageDuration_totals steps_totalTokensOut result0_def)
  moreover have "totalCost ?r = sum_list (numeric_occurrences rt ''cost'' messages)"
    by (simp add: set_averageDuration_totals steps_totalCost result0_def)
  moreover have "map entry_tokensIn (performanceHistory ?r) =
       map (\<lambda>m. payload_field rt m ''tokensIn'') (filter (\<lambda>m. 0 < derivedDuration rt m) messages)"
    by (simp add: h entry_of_tokens comp_def)
  moreover have "map entry_tokensOut (performanceHistory ?r) =
       map (\<lambda>m. payload_field rt m ''tokensOut'') (filter (\<lambda>m. 0 < derivedDuration rt m) messages)"
    by (simp add: h entry_of_tokens comp_def)
  ultimately show ?thesis using run h by blast
qed

text \<open>One request of 150 ms whose payload has no token counts.\<close>

lemma example3_event:
  "derivedDuration node (api_req_started 1000 payload3) = 150"
  "payload_field node (api_req_started 1000 payload3) ''tokensIn'' = None"
  "payload_field node (api_req_started 1000 payload3) ''tokensOut'' = None"
  "numeric_occurrences node ''tokensIn'' [api_req_started 1000 payload3] = []"
  "numeric_occurrences node ''tokensOut'' [api_req_started 1000 payload3] = []"
  "numeric_occurrences node ''cost'' [api_req_started 1000 payload3] = []"
  by (simp_all add: derivedDuration_def payload_field_def numeric_occurrences_def payload_def
      parsed_def requestDuration_def is_api_req_started_def api_req_started_def node_parse
      node_payload_nonempty)

theorem totals_default_history_copies_witness:
  "\<exists>r c'. getApiMetrics node [api_req_started 1000 payload3] [] = Inr (r, c') \<and>
     totalTokensIn r = 0 \<and> totalTokensOut r = 0 \<and> totalCost r = 0 \<and>
     map entry_tokensIn (performanceHistory r) = [None] \<and>
     map entry_tokensOut (performanceHistory r) = [None]"
proof -
  from totals_default_history_copies [of node "[api_req_started 1000 payload3]" "[]"]
  have "\<exists>r c'. getApiMetrics node [api_req_started 1000 payload3] [] = Inr (r, c') \<and>
     totalTokensIn r = 0 \<and> totalTokensOut r = 0 \<and> totalCost r = 0 \<and>
     performanceHistory r = [entry_of node (api_req_started 1000 payload3)] \<and>
     map entry_tokensIn (performanceHistory r) = [None] \<and>
     map entry_tokensOut (performanceHistory r) = [None]"
    by (simp add: example3_event)
  then show ?thesis
    by (elim exE conjE) (intro exI conjI, assumption+)
qed

text \<open>
  The claim as stated fails on that request: the entry pushed to
  \<^verbatim>\<open>performanceHistory\<close> has neither \<^verbatim>\<open>tokensIn\<close> nor \<^verbatim>\<open>tokensOut\<close>.
\<close>

lemma example3_run:
  "case getApiMetrics node [api_req_started 1000 payload3] [] of
     Inl e \<Rightarrow> False
   | Inr (r, c) \<Rightarrow>
       performanceHistory r =
         [\<lparr> entry_ts = 1000, entry_duration = 150, entry_tokensIn = None,
            entry_tokensOut = None, entry_provider = None, entry_modelId = None \<rparr>]"
  by (simp add: run_defs node_parse node_payload_nonempty)

theorem history_tokens_absent_counterexample:
  "(case getApiMetrics node [api_req_started 1000 payload3] [] of
      Inl e \<Rightarrow> False
    | Inr (r, c) \<Rightarrow>
        performanceHistory r =
          [\<lparr> entry_ts = 1000, entry_duration = 150, entry_tokensIn = None,
             entry_tokensOut = None, entry_provider = None, entry_modelId = None \<rparr>]) \<and>
   JSON_parse node payload3 = Some (JObj [(''duration'', JNum 150)])"
  using example3_run by (simp add: node_parse)

section \<open>Events that are skipped, and events that are not objects\<close>

lemma find_Some_holds: "find P xs = Some x \<Longrightarrow> P x \<and> x \<in> set xs"
  by (induction xs) (auto split: if_splits)

lemma lastApiReq_Some:
  assumes "lastApiReq rt ms = Some (j, m')"
  shows "j < length ms \<and> ms ! j = m' \<and> is_api_req_started m' \<and>
         js_gt0 rt (getTotalTokensFromMessage rt m')"
proof -
  from assms have "(if is_api_req_started m'
        then js_gt0 rt (getTotalTokensFromMessage rt m') else False) \<and>
      (j, m') \<in> set (rev (enumerate 0 ms))"
    unfolding lastApiReq_def by (drule_tac find_Some_holds) (auto split: if_splits)
  then show ?thesis
    by (simp add: in_set_enumerate_eq split: if_splits)
qed

lemma destructure_nonobject:
  "j \<noteq> JNull \<Longrightarrow> \<not> is_object j \<Longrightarrow> destructure j = Some (\<lambda>k. None)"
  by (cases j) simp_all

lemma total_nonobject:
  assumes "msg_text m = Some s" "JSON_parse rt s = Some j" "j \<noteq> JNull" "\<not> is_object j"
  shows "getTotalTokensFromMessage rt m = PNum 0"
  using assms
  by (simp add: getTotalTokensFromMessage_def totalTokens_try_def destructure_nonobject or0_def
      js_plus_def)

lemma body_no_properties:
  "\<not> is_lastApiReq l i \<Longrightarrow>
   callback_body rt l r i m (\<lambda>k. None) = (r\<lparr>requestCount := requestCount r + 1\<rparr>, None)"
  by (simp add: callback_body_def add_usage_def requestDuration_def set_contextTokens_def Let_def)

text \<open>
  Claim C4, as the code has it. An event whose text is not valid JSON (the empty text
  included), or parses to \<^verbatim>\<open>null\<close>, is skipped: the callback leaves the record as it
  found it and returns normally. So it does on an event that has no text or is not an
  API-request-start. (The guard of line 243 stops the latter two and the empty text, and
  nothing is written to the console; a text that does not parse, or parses to \<^verbatim>\<open>null\<close>,
  throws inside the \<^verbatim>\<open>try\<close> block, and the \<^verbatim>\<open>catch\<close> writes the exception to the
  console.) An API-request-start event whose text parses to a number, a string, a boolean
  or an array is not skipped: the callback increments \<^verbatim>\<open>requestCount\<close>, changes
  nothing else and throws nothing. (Such an event is never the last request with tokens,
  which is why \<^verbatim>\<open>contextTokens\<close> is left alone.)
\<close>

theorem skipped_events_and_nonobject_payloads:
  "(\<not> is_api_req_started m \<or> msg_text m = None \<or> msg_text m = Some [] \<longrightarrow>
      callback rt lastReq (r, c) i m = Inr (r, c)) \<and>
   (is_api_req_started m \<and> msg_text m = Some s \<and> s \<noteq> [] \<and> JSON_parse rt s = None \<longrightarrow>
      callback rt lastReq (r, c) i m = Inr (r, c @ [SyntaxError])) \<and>
   (is_api_req_started m \<and> msg_text m = Some s \<and> s \<noteq> [] \<and> JSON_parse rt s = Some JNull \<longrightarrow>
      callback rt lastReq (r, c) i m = Inr (r, c @ [TypeError])) \<and>
   (is_api_req_started m \<and> msg_text m = Some s \<and> s \<noteq> [] \<and> JSON_parse rt s = Some j \<and>
    j \<noteq> JNull \<and> \<not> is_object j \<and> i < length messages \<and> messages ! i = m \<longrightarrow>
      callback rt (lastApiReq rt messages) (r, c) i m =
        Inr (r\<lparr>requestCount := requestCount r + 1\<rparr>, c))"
proof (intro conjI impI)
  assume "\<not> is_api_req_started m \<or> msg_text m = None \<or> msg_text m = Some []"
  then show "callback rt lastReq (r, c) i m = Inr (r, c)"
    by (auto simp: callback_def split: option.splits)
next
  assume "is_api_req_started m \<and> msg_text m = Some s \<and> s \<noteq> [] \<and> JSON_parse rt s = None"
  then show "callback rt lastReq (r, c) i m = Inr (r, c @ [SyntaxError])"
    by (simp add: callback_def callback_try_def)
next
  assume "is_api_req_started m \<and> msg_text m = Some s \<and> s \<noteq> [] \<and> JSON_parse rt s = Some JNull"
  then show "callback rt lastReq (r, c) i m = Inr (r, c @ [TypeError])"
    by (simp add: callback_def callback_try_def)
next
  assume a: "is_api_req_started m \<and> msg_text m = Some s \<and> s \<noteq> [] \<and> JSON_parse rt s = Some j \<and>
    j \<noteq> JNull \<and> \<not> is_object j \<and> i < length messages \<and> messages ! i = m"
  have "\<not> is_lastApiReq (lastApiReq rt messages) i"
  proof
    assume "is_lastApiReq (lastApiReq rt messages) i"
    then obtain m' where "lastApiReq rt messages = Some (i, m')"
      by (auto simp: is_lastApiReq_def split: option.splits)
    from lastApiReq_Some [OF this] a have "js_gt0 rt (getTotalTokensFromMessage rt m)"
      by simp
    moreover from a have "getTotalTokensFromMessage rt m = PNum 0"
      by (simp add: total_nonobject)
    ultimately show False by (simp add: js_gt0_def)
  qed
  with a show "callback rt (lastApiReq rt messages) (r, c) i m =
        Inr (r\<lparr>requestCount := requestCount r + 1\<rparr>, c)"
    by (simp add: callback_def callback_try_def destructure_nonobject body_no_properties)
qed

theorem skipped_events_and_nonobject_payloads_witness:
  "callback node None (result0, []) 0 ask_message = Inr (result0, []) \<and>
   callback node None (result0, []) 0 (api_req_started 1000 []) = Inr (result0, []) \<and>
   callback node None (result0, []) 0 (api_req_started 1000 ''not json'') =
     Inr (result0, [SyntaxError]) \<and>
   callback node None (result0, []) 0 (api_req_started 1000 ''null'') =
     Inr (result0, [TypeError]) \<and>
   callback node (lastApiReq node [api_req_started 1000 ''5'']) (result0, []) 0
       (api_req_started 1000 ''5'') =
     Inr (result0\<lparr>requestCount := requestCount result0 + 1\<rparr>, [])"
proof -
  have q: "\<not> is_api_req_started ask_message"
    by (simp add: ask_message_def is_api_req_started_def)
  have e: "msg_text (api_req_started 1000 []) = Some []"
    by (simp add: api_req_started_def)
  have a: "is_api_req_started (api_req_started 1000 ''not json'') \<and>
      msg_text (api_req_started 1000 ''not json'') = Some ''not json'' \<and> ''not json'' \<noteq> [] \<and>
      JSON_parse node ''not json'' = None"
    by (simp add: is_api_req_started_def api_req_started_def node_parse)
  have b: "is_api_req_started (api_req_started 1000 ''null'') \<and>
      msg_text (api_req_started 1000 ''null'') = Some ''null'' \<and> ''null'' \<noteq> [] \<and>
      JSON_parse node ''null'' = Some JNull"
    by (simp add: is_api_req_started_def api_req_started_def node_parse)
  have c: "is_api_req_started (api_req_started 1000 ''5'') \<and>
      msg_text (api_req_started 1000 ''5'') = Some ''5'' \<and> ''5'' \<noteq> [] \<and>
      JSON_parse node ''5'' = Some (JNum 5) \<and> JNum 5 \<noteq> JNull \<and> \<not> is_object (JNum 5) \<and>
      0 < length [api_req_started 1000 ''5''] \<and>
      [api_req_started 1000 ''5''] ! 0 = api_req_started 1000 ''5''"
    by (simp add: is_api_req_started_def api_req_started_def node_parse)
  from q skipped_events_and_nonobject_payloads [of ask_message node None result0 "[]" 0]
  have 0: "callback node None (result0, []) 0 ask_message = Inr (result0, [])"
    by blast
  from e skipped_events_and_nonobject_payloads [of "api_req_started 1000 []" node None result0 "[]" 0]
  have 1: "callback node None (result0, []) 0 (api_req_started 1000 []) = Inr (result0, [])"
    by blast
  from a skipped_events_and_nonobject_payloads
    [of "api_req_started 1000 ''not json''" node None result0 "[]" 0 "''not json''"]
  have 2: "callback node None (result0, []) 0 (api_req_started 1000 ''not json'') =
     Inr (result0, [SyntaxError])"
    by simp
  from b skipped_events_and_nonobject_payloads
    [of "api_req_started 1000 ''null''" node None result0 "[]" 0 "''null''"]
  have 3: "callback node None (result0, []) 0 (api_req_started 1000 ''null'') =
     Inr (result0, [TypeError])"
    by simp
  from c skipped_events_and_nonobject_payloads
    [of "api_req_started 1000 ''5''" node None result0 "[]" 0 "''5''" "JNum 5"
        "[api_req_started 1000 ''5'']"]
  have 4: "callback node (lastApiReq node [api_req_started 1000 ''5'']) (result0, []) 0
       (api_req_started 1000 ''5'') =
     Inr (result0\<lparr>requestCount := requestCount result0 + 1\<rparr>, [])"
    by simp
  from 0 1 2 3 4 show ?thesis by simp
qed

text \<open>
  The claim as stated fails on an event whose text is \<^verbatim>\<open>5\<close>: valid JSON, not an
  object, and \<^verbatim>\<open>requestCount\<close> becomes 1.
\<close>

lemma example_5_run:
  "getApiMetrics node [api_req_started 1000 ''5''] [] = Inr (result0\<lparr>requestCount := 1\<rparr>, [])"
  by (simp add: run_defs node_parse)

theorem nonobject_counted_counterexample:
  "getApiMetrics node [api_req_started 1000 ''5''] [] = Inr (result0\<lparr>requestCount := 1\<rparr>, []) \<and>
   requestCount (result0\<lparr>requestCount := 1\<rparr>) = 1 \<and>
   JSON_parse node ''5'' = Some (JNum 5) \<and> \<not> is_object (JNum 5)"
  using example_5_run by (simp add: node_parse)

section \<open>The context tokens\<close>

lemma track_throws: "key_throws rt key \<Longrightarrow> track rt key d objs = Inl TypeError"
  by (auto simp: track_def key_throws_def split: option.splits)

lemma track_returns: "\<not> key_throws rt key \<Longrightarrow> track rt key d objs \<noteq> Inl e"
  by (auto simp: track_def key_throws_def split: option.splits)

lemma body_contextTokens:
  "contextTokens (fst (callback_body rt l r i m f)) =
     (if is_lastApiReq l i \<and>
         \<not> (0 < requestDuration f \<and>
            (key_throws rt (f ''provider'') \<or> key_throws rt (f ''modelId'')))
      then getTotalTokensFromMessage rt m else contextTokens r)"
proof (cases "0 < requestDuration f")
  case False
  then show ?thesis
    by (simp add: callback_body_def Let_def set_contextTokens_def add_usage_fields)
next
  case d: True
  show ?thesis
  proof (cases "key_throws rt (f ''provider'')")
    case True
    with d show ?thesis
      by (simp add: callback_body_def Let_def add_usage_fields track_throws)
  next
    case p: False
    show ?thesis
    proof (cases "key_throws rt (f ''modelId'')")
      case True
      with d p show ?thesis
        by (simp add: callback_body_def Let_def add_usage_fields track_throws track_returns
            split: sum.splits)
    next
      case False
      with d p show ?thesis
        by (simp add: callback_body_def Let_def set_contextTokens_def add_usage_fields
            track_returns split: sum.splits)
    qed
  qed
qed

lemma step_contextTokens:
  "contextTokens (step rt l r i m) =
     (if is_lastApiReq l i \<and> \<not> cut_short rt m then getTotalTokensFromMessage rt m
      else contextTokens r)"
  by (auto simp: step_def cut_short_def body_contextTokens split: option.splits)

lemma steps_contextTokens:
  "contextTokens (steps rt (Some (j, m')) r i ms) =
     (if i \<le> j \<and> j < i + length ms \<and> \<not> cut_short rt (ms ! (j - i))
      then getTotalTokensFromMessage rt (ms ! (j - i)) else contextTokens r)"
proof (induction ms arbitrary: r i)
  case Nil
  show ?case by auto
next
  case (Cons m ms)
  have here: "contextTokens (step rt (Some (j, m')) r i m) =
      (if j = i \<and> \<not> cut_short rt m then getTotalTokensFromMessage rt m else contextTokens r)"
    by (simp add: step_contextTokens is_lastApiReq_def)
  have rest: "contextTokens (steps rt (Some (j, m')) r i (m # ms)) =
      (if Suc i \<le> j \<and> j < Suc i + length ms \<and> \<not> cut_short rt (ms ! (j - Suc i))
       then getTotalTokensFromMessage rt (ms ! (j - Suc i))
       else contextTokens (step rt (Some (j, m')) r i m))"
    by (simp add: Cons.IH)
  consider "j < i" | "j = i" | "Suc i \<le> j" by arith
  then show ?case
  proof cases
    case 1
    then show ?thesis unfolding rest here by simp
  next
    case 2
    then show ?thesis unfolding rest here by simp
  next
    case 3
    then have "(m # ms) ! (j - i) = ms ! (j - Suc i)"
      by (simp add: Suc_diff_le)
    with 3 show ?thesis unfolding rest here by simp
  qed
qed

lemma steps_contextTokens_None:
  "contextTokens (steps rt None r i ms) = contextTokens r"
  by (induction ms arbitrary: r i) (simp_all add: step_contextTokens is_lastApiReq_def)

lemma total_unprocessed: "is_api_req_started m \<Longrightarrow> \<not> processed rt m \<Longrightarrow> getTotalTokensFromMessage rt m = PNum 0"
  by (auto simp: processed_def payload_def parsed_def getTotalTokensFromMessage_def
      totalTokens_try_def split: option.splits if_splits)

lemma find_None_holds: "find P xs = None \<Longrightarrow> x \<in> set xs \<Longrightarrow> \<not> P x"
  by (induction xs) (auto split: if_splits)

lemma find_rev_last:
  "find P (rev xs) = Some x \<Longrightarrow> \<exists>ys zs. xs = ys @ x # zs \<and> P x \<and> (\<forall>z\<in>set zs. \<not> P z)"
proof (induction xs rule: rev_induct)
  case Nil
  then show ?case by simp
next
  case (snoc y xs)
  show ?case
  proof (cases "P y")
    case True
    with snoc.prems have "x = y" by simp
    with True show ?thesis by (intro exI [of _ xs] exI [of _ "[]"]) simp
  next
    case False
    with snoc.prems have "find P (rev xs) = Some x" by simp
    from snoc.IH [OF this] obtain ys zs where "xs = ys @ x # zs" "P x" "\<forall>z\<in>set zs. \<not> P z"
      by blast
    with False show ?thesis
      by (intro exI [of _ ys] exI [of _ "zs @ [y]"]) simp
  qed
qed

lemma lastApiReq_is_last:
  assumes "lastApiReq rt ms = Some (j, m)"
  shows "j < length ms \<and> ms ! j = m \<and> has_tokens rt m \<and>
         (\<forall>k. j < k \<and> k < length ms \<longrightarrow> \<not> has_tokens rt (ms ! k))"
proof -
  let ?P = "\<lambda>(i, message).
             if is_api_req_started message
             then js_gt0 rt (getTotalTokensFromMessage rt message)
             else False"
  have P: "\<And>i x. ?P (i, x) = has_tokens rt x"
    by (simp add: has_tokens_def)
  from assms have "find ?P (rev (enumerate 0 ms)) = Some (j, m)"
    by (simp add: lastApiReq_def)
  from find_rev_last [OF this] obtain ys zs where
    e: "enumerate 0 ms = ys @ (j, m) # zs" and p: "has_tokens rt m" and
    z: "\<forall>z\<in>set zs. \<not> ?P z"
    unfolding P by blast
  have mem: "(j, m) \<in> set (enumerate 0 ms)" by (simp add: e)
  then have jm: "j < length ms \<and> ms ! j = m"
    by (simp add: in_set_enumerate_eq)
  have len: "length ms = length ys + Suc (length zs)"
    using arg_cong [OF e, of length] by simp
  then have "enumerate 0 ms ! length ys = (length ys, ms ! length ys)"
    by (simp add: nth_enumerate_eq)
  moreover have "enumerate 0 ms ! length ys = (j, m)"
    by (simp add: e)
  ultimately have ly: "length ys = j" by simp
  have "\<not> has_tokens rt (ms ! k)" if k: "j < k" "k < length ms" for k
  proof -
    have "enumerate 0 ms ! k = (k, ms ! k)" using k by (simp add: nth_enumerate_eq)
    moreover have "enumerate 0 ms ! k = zs ! (k - Suc j)"
      using k ly by (simp add: e nth_append)
    moreover have "k - Suc j < length zs"
      using k ly len by arith
    ultimately have "(k, ms ! k) = zs ! (k - Suc j)" "k - Suc j < length zs" by simp_all
    then have "(k, ms ! k) \<in> set zs" by simp
    with z have "\<not> ?P (k, ms ! k)" by blast
    then show ?thesis unfolding P .
  qed
  with jm p show ?thesis by blast
qed

lemma lastApiReq_None:
  assumes "lastApiReq rt ms = None"
  shows "\<forall>m\<in>set ms. \<not> has_tokens rt m"
proof
  fix m assume "m \<in> set ms"
  then obtain i where "i < length ms" "ms ! i = m" by (auto simp: in_set_conv_nth)
  then have "(i, m) \<in> set (rev (enumerate 0 ms))"
    by (simp add: in_set_enumerate_eq)
  with assms have "\<not> (\<lambda>(i, message).
             if is_api_req_started message
             then js_gt0 rt (getTotalTokensFromMessage rt message)
             else False) (i, m)"
    unfolding lastApiReq_def by (rule find_None_holds)
  then show "\<not> has_tokens rt m" by (simp add: has_tokens_def split: if_splits)
qed

lemma has_tokens_processed: "has_tokens rt m \<Longrightarrow> processed rt m"
proof (rule ccontr)
  assume h: "has_tokens rt m" and n: "\<not> processed rt m"
  from h have "is_api_req_started m" by (simp add: has_tokens_def)
  from total_unprocessed [OF this n] h show False
    by (simp add: has_tokens_def js_gt0_def)
qed

text \<open>
  What \<^verbatim>\<open>contextTokens\<close> is, for every sequence: with \<open>lastApiReq_is_last\<close> and
  \<open>lastApiReq_None\<close>, the combined tokens of the last API-request-start event that has
  tokens, unless the callback is cut short on that very event; then, and when no event
  has tokens, 0.
\<close>

lemma contextTokens_of_last_request:
  "\<exists>r c'. getApiMetrics rt messages console = Inr (r, c') \<and>
     contextTokens r =
       (case lastApiReq rt messages of
          None \<Rightarrow> PNum 0
        | Some (j, m) \<Rightarrow>
            if cut_short rt m then PNum 0 else getTotalTokensFromMessage rt m)"
proof -
  let ?R = "steps rt (lastApiReq rt messages) result0 0 messages"
  obtain c' where run: "getApiMetrics rt messages console = Inr (set_averageDuration ?R, c')"
    using getApiMetrics_steps by blast
  have "contextTokens ?R =
       (case lastApiReq rt messages of
          None \<Rightarrow> PNum 0
        | Some (j, m) \<Rightarrow>
            if cut_short rt m then PNum 0 else getTotalTokensFromMessage rt m)"
  proof (cases "lastApiReq rt messages")
    case None
    then show ?thesis by (simp add: steps_contextTokens_None result0_def)
  next
    case (Some p)
    obtain j m where p: "p = (j, m)" by (cases p)
    from lastApiReq_is_last [of rt messages j m] Some p
    have "j < length messages" "messages ! j = m" by simp_all
    with Some p show ?thesis
      by (simp add: steps_contextTokens result0_def)
  qed
  with run show ?thesis by (simp add: set_averageDuration_fields)
qed

subsection \<open>The last request that has tokens, by position\<close>

lemma plain_key_converts: "plain_key key \<Longrightarrow> \<not> key_throws rt key"
  by (cases key rule: plain_key.cases) (simp_all add: key_throws_def)

lemma keys_plain_not_cut_short:
  assumes "keys_plain rt m" "processed rt m"
  shows "\<not> cut_short rt m"
proof -
  from assms(2) obtain j where j: "parsed rt m = Some j" "j \<noteq> JNull"
    by (auto simp: processed_def payload_parsed split: option.splits if_splits)
  with assms(1) have "plain_key (field_of j ''provider'')" "plain_key (field_of j ''modelId'')"
    by (simp_all add: keys_plain_def)
  then have "\<not> key_throws rt (field_of j ''provider'')" "\<not> key_throws rt (field_of j ''modelId'')"
    by (simp_all add: plain_key_converts)
  with j show ?thesis
    by (simp add: cut_short_def payload_parsed)
qed

lemma lastApiReq_unique:
  assumes "j < length ms" "has_tokens rt (ms ! j)"
    and "\<forall>k. j < k \<and> k < length ms \<longrightarrow> \<not> has_tokens rt (ms ! k)"
  shows "lastApiReq rt ms = Some (j, ms ! j)"
proof (cases "lastApiReq rt ms")
  case None
  from lastApiReq_None [OF this] assms(1,2) show ?thesis
    by (metis nth_mem)
next
  case (Some p)
  obtain j' m' where p: "p = (j', m')" by (cases p)
  from lastApiReq_is_last [of rt ms j' m'] Some p
  have l: "j' < length ms" "ms ! j' = m'" "has_tokens rt m'"
    "\<forall>k. j' < k \<and> k < length ms \<longrightarrow> \<not> has_tokens rt (ms ! k)"
    by simp_all
  have "j' = j"
  proof (rule ccontr)
    assume "j' \<noteq> j"
    then consider "j' < j" | "j < j'" by arith
    then show False
    proof cases
      case 1
      with l(4) assms(1,2) show False by blast
    next
      case 2
      with assms(3) l(1,2,3) show False by blast
    qed
  qed
  with Some p l(2) show ?thesis by simp
qed

lemma lastApiReq_none:
  assumes "\<forall>k. k < length ms \<longrightarrow> \<not> has_tokens rt (ms ! k)"
  shows "lastApiReq rt ms = None"
proof (cases "lastApiReq rt ms")
  case None
  then show ?thesis .
next
  case (Some p)
  obtain j' m' where p: "p = (j', m')" by (cases p)
  from lastApiReq_is_last [of rt ms j' m'] Some p
  have "j' < length ms" "has_tokens rt (ms ! j')" by simp_all
  with assms show ?thesis by blast
qed

lemma or0_number:
  "number_or_absent (field_of j k) \<Longrightarrow>
   ToPrimitive rt (or0 (field_of j k)) = Some (PNum (tokens_at j k))"
  by (cases "field_of j k" rule: number_or_absent.cases)
    (simp_all add: or0_def tokens_at_def number_at_def)

lemma tokens_at_JNull: "tokens_at JNull k = 0"
  by (simp add: tokens_at_def number_at_def)

lemma total_is_combined:
  assumes "tokens_numeric rt m"
  shows "getTotalTokensFromMessage rt m = PNum (combinedTokens rt m)"
proof (cases "msg_text m")
  case None
  then show ?thesis
    by (simp add: getTotalTokensFromMessage_def combinedTokens_def)
next
  case (Some s)
  show ?thesis
  proof (cases "s = []")
    case True
    with Some show ?thesis
      by (simp add: getTotalTokensFromMessage_def combinedTokens_def)
  next
    case ne: False
    show ?thesis
    proof (cases "JSON_parse rt s")
      case None
      with Some ne show ?thesis
        by (simp add: getTotalTokensFromMessage_def combinedTokens_def totalTokens_try_def)
    next
      case (Some j)
      show ?thesis
      proof (cases "j = JNull")
        case True
        with Some \<open>msg_text m = Some s\<close> ne show ?thesis
          by (simp add: getTotalTokensFromMessage_def combinedTokens_def totalTokens_try_def
              tokens_at_JNull)
      next
        case False
        from assms Some \<open>msg_text m = Some s\<close> ne
        have n: "number_or_absent (field_of j ''tokensIn'')"
          "number_or_absent (field_of j ''tokensOut'')"
          "number_or_absent (field_of j ''cacheWrites'')"
          "number_or_absent (field_of j ''cacheReads'')"
          by (simp_all add: tokens_numeric_def)
        from False Some \<open>msg_text m = Some s\<close> ne show ?thesis
          by (simp add: getTotalTokensFromMessage_def combinedTokens_def totalTokens_try_def
              destructure_field_of or0_number [OF n(1)] or0_number [OF n(2)]
              or0_number [OF n(3)] or0_number [OF n(4)] js_plus_def)
      qed
    qed
  qed
qed

text \<open>
  Claim C1, as the code has it. For every sequence, \<^verbatim>\<open>contextTokens\<close> is the combined
  tokens of the last event, by position, that is tagged as an API-request-start and has
  combined tokens greater than zero, provided the provider and the model of that event
  are not objects or arrays (the data model has them as strings); it is 0 if no event has
  tokens. The combined tokens are what \<^verbatim>\<open>getTotalTokensFromMessage\<close> returns; for an
  event \<open>m\<close> whose token counts are numbers when present, that is the sum of the
  specification: \<^verbatim>\<open>tokensIn + tokensOut + cacheWrites + cacheReads\<close> with a missing
  field as 0, and 0 when there is no text or it does not parse.
\<close>

theorem contextTokens_is_last_combined:
  "(\<exists>r c'. getApiMetrics rt messages console = Inr (r, c') \<and>
      (\<forall>j. j < length messages \<and> has_tokens rt (messages ! j) \<and>
            (\<forall>k. j < k \<and> k < length messages \<longrightarrow> \<not> has_tokens rt (messages ! k)) \<and>
            keys_plain rt (messages ! j) \<longrightarrow>
            contextTokens r = getTotalTokensFromMessage rt (messages ! j)) \<and>
      ((\<forall>k. k < length messages \<longrightarrow> \<not> has_tokens rt (messages ! k)) \<longrightarrow>
         contextTokens r = PNum 0)) \<and>
   (tokens_numeric rt m \<longrightarrow>
      getTotalTokensFromMessage rt m = PNum (combinedTokens rt m) \<and>
      (has_tokens rt m \<longleftrightarrow> is_api_req_started m \<and> 0 < combinedTokens rt m))"
proof (intro conjI impI)
  obtain r c' where run: "getApiMetrics rt messages console = Inr (r, c')"
    and ctx: "contextTokens r =
       (case lastApiReq rt messages of
          None \<Rightarrow> PNum 0
        | Some (j, m) \<Rightarrow>
            if cut_short rt m then PNum 0 else getTotalTokensFromMessage rt m)"
    using contextTokens_of_last_request by blast
  have "contextTokens r = getTotalTokensFromMessage rt (messages ! j)"
    if h: "j < length messages \<and> has_tokens rt (messages ! j) \<and>
            (\<forall>k. j < k \<and> k < length messages \<longrightarrow> \<not> has_tokens rt (messages ! k)) \<and>
            keys_plain rt (messages ! j)" for j
  proof -
    from h have l: "lastApiReq rt messages = Some (j, messages ! j)"
      by (simp add: lastApiReq_unique)
    from h have "\<not> cut_short rt (messages ! j)"
      by (simp add: keys_plain_not_cut_short has_tokens_processed)
    with l ctx show ?thesis by simp
  qed
  moreover have "contextTokens r = PNum 0"
    if "\<forall>k. k < length messages \<longrightarrow> \<not> has_tokens rt (messages ! k)"
    using that ctx by (simp add: lastApiReq_none)
  ultimately show "\<exists>r c'. getApiMetrics rt messages console = Inr (r, c') \<and>
      (\<forall>j. j < length messages \<and> has_tokens rt (messages ! j) \<and>
            (\<forall>k. j < k \<and> k < length messages \<longrightarrow> \<not> has_tokens rt (messages ! k)) \<and>
            keys_plain rt (messages ! j) \<longrightarrow>
            contextTokens r = getTotalTokensFromMessage rt (messages ! j)) \<and>
      ((\<forall>k. k < length messages \<longrightarrow> \<not> has_tokens rt (messages ! k)) \<longrightarrow>
         contextTokens r = PNum 0)"
    using run by blast
next
  assume "tokens_numeric rt m"
  then show "getTotalTokensFromMessage rt m = PNum (combinedTokens rt m)"
    by (rule total_is_combined)
next
  assume "tokens_numeric rt m"
  then show "has_tokens rt m \<longleftrightarrow> is_api_req_started m \<and> 0 < combinedTokens rt m"
    by (simp add: has_tokens_def total_is_combined js_gt0_def)
qed

text \<open>
  Requests with 30 and with 1 + 2 + 4 + 8 tokens, then one without tokens: the second
  is the last that has tokens. And that last request alone: no event has tokens.
\<close>

lemma example6_facts:
  "getTotalTokensFromMessage node (api_req_started 1001 payload6) = PNum 15"
  "getTotalTokensFromMessage node (api_req_started 1002 payload3) = PNum 0"
  "combinedTokens node (api_req_started 1001 payload6) = 15"
  "tokens_numeric node (api_req_started 1001 payload6)"
  "keys_plain node (api_req_started 1001 payload6)"
  "is_api_req_started (api_req_started 1001 payload6)"
  "is_api_req_started (api_req_started 1002 payload3)"
  by (simp_all add: getTotalTokensFromMessage_def totalTokens_try_def or0_def js_plus_def
      combinedTokens_def tokens_at_def number_at_def tokens_numeric_def keys_plain_def parsed_def
      is_api_req_started_def api_req_started_def node_parse node_parse_more node_payload_nonempty)

theorem contextTokens_is_last_combined_witness:
  "(\<exists>r c'. getApiMetrics node
       [api_req_started 1000 payload1, api_req_started 1001 payload6,
        api_req_started 1002 payload3] [] = Inr (r, c') \<and>
      contextTokens r = PNum 15) \<and>
   has_tokens node (api_req_started 1001 payload6) \<and>
   \<not> has_tokens node (api_req_started 1002 payload3) \<and>
   keys_plain node (api_req_started 1001 payload6) \<and>
   tokens_numeric node (api_req_started 1001 payload6) \<and>
   combinedTokens node (api_req_started 1001 payload6) = 15 \<and>
   (\<exists>r c'. getApiMetrics node [api_req_started 1002 payload3] [] = Inr (r, c') \<and>
      contextTokens r = PNum 0)"
proof -
  let ?m1 = "api_req_started 1000 payload1" and ?m6 = "api_req_started 1001 payload6"
    and ?m3 = "api_req_started 1002 payload3"
  have h6: "has_tokens node ?m6" and h3: "\<not> has_tokens node ?m3"
    by (simp_all add: has_tokens_def js_gt0_def example6_facts)
  have later: "\<forall>k. 1 < k \<and> k < length [?m1, ?m6, ?m3] \<longrightarrow> \<not> has_tokens node ([?m1, ?m6, ?m3] ! k)"
  proof (intro allI impI)
    fix k assume "1 < k \<and> k < length [?m1, ?m6, ?m3]"
    then have "k = 2" by simp
    with h3 show "\<not> has_tokens node ([?m1, ?m6, ?m3] ! k)" by simp
  qed
  from contextTokens_is_last_combined [of node "[?m1, ?m6, ?m3]" "[]" ?m6]
  obtain r c' where
    run: "getApiMetrics node [?m1, ?m6, ?m3] [] = Inr (r, c')" and
    lastc: "\<forall>j. j < length [?m1, ?m6, ?m3] \<and> has_tokens node ([?m1, ?m6, ?m3] ! j) \<and>
            (\<forall>k. j < k \<and> k < length [?m1, ?m6, ?m3] \<longrightarrow> \<not> has_tokens node ([?m1, ?m6, ?m3] ! k)) \<and>
            keys_plain node ([?m1, ?m6, ?m3] ! j) \<longrightarrow>
            contextTokens r = getTotalTokensFromMessage node ([?m1, ?m6, ?m3] ! j)"
    by blast
  from lastc [rule_format, of 1] h6 later
  have "contextTokens r = getTotalTokensFromMessage node ?m6"
    by (simp add: example6_facts)
  then have "contextTokens r = PNum 15"
    by (simp add: example6_facts)
  with run have a: "\<exists>r c'. getApiMetrics node [?m1, ?m6, ?m3] [] = Inr (r, c') \<and>
      contextTokens r = PNum 15"
    by blast
  have none: "\<forall>k. k < length [?m3] \<longrightarrow> \<not> has_tokens node ([?m3] ! k)"
    using h3 by simp
  from contextTokens_is_last_combined [of node "[?m3]" "[]" ?m6]
  obtain r c' where
    "getApiMetrics node [?m3] [] = Inr (r, c')" and
    "(\<forall>k. k < length [?m3] \<longrightarrow> \<not> has_tokens node ([?m3] ! k)) \<longrightarrow> contextTokens r = PNum 0"
    by blast
  with none have b: "\<exists>r c'. getApiMetrics node [?m3] [] = Inr (r, c') \<and> contextTokens r = PNum 0"
    by blast
  from a b h6 h3 show ?thesis
    by (simp add: example6_facts)
qed

subsection \<open>When the callback throws on the last request\<close>

text \<open>
  The claim as stated, for every sequence, fails on the one below. Its only event has
  \<^verbatim>\<open>tokensIn\<close> 5, a duration of 1 and a \<^verbatim>\<open>provider\<close> that is an object with an own
  \<^verbatim>\<open>toString\<close> property. It is found as \<^verbatim>\<open>lastApiReq\<close> and its combined tokens are
  5, but converting the provider to a property key (line 300) throws inside the
  \<^verbatim>\<open>try\<close> block, so that line 314 is never reached: \<^verbatim>\<open>contextTokens\<close> is still 0 in
  the record returned, and the TypeError is on the console.
\<close>

theorem contextTokens_lost_on_throw:
  "(case getApiMetrics node [api_req_started 1000 payload4] [] of
      Inl e \<Rightarrow> False
    | Inr (r, c) \<Rightarrow> contextTokens r = PNum 0 \<and> totalTokensIn r = 5 \<and> c = [TypeError]) \<and>
   lastApiReq node [api_req_started 1000 payload4] = Some (0, api_req_started 1000 payload4) \<and>
   getTotalTokensFromMessage node (api_req_started 1000 payload4) = PNum 5 \<and>
   combinedTokens node (api_req_started 1000 payload4) = 5"
  by (simp add: run_defs node_parse node_payload_nonempty combinedTokens_def tokens_at_def
      number_at_def)

section \<open>The counts and durations by provider and by model\<close>

lemma get_or0_count:
  assumes "by_key_ok rt objs" "ObjectPrototype rt k = None"
  shows "\<exists>n. get_or0 rt (fst objs) k = PNum n \<and> 0 \<le> n"
proof (cases "fst objs k")
  case None
  with assms show ?thesis by (simp add: get_or0_def)
next
  case (Some v)
  with assms obtain n where "v = PNum n" "1 \<le> n" unfolding by_key_ok_def by blast
  with Some show ?thesis by (simp add: get_or0_def)
qed

lemma get_or0_duration:
  assumes "by_key_ok rt objs" "ObjectPrototype rt k = None"
  shows "\<exists>n. get_or0 rt (snd objs) k = PNum n \<and> 0 \<le> n"
proof (cases "snd objs k")
  case None
  with assms show ?thesis by (simp add: get_or0_def)
next
  case (Some v)
  with assms obtain n where "v = PNum n" "0 < n" unfolding by_key_ok_def by blast
  with Some show ?thesis by (simp add: get_or0_def)
qed

lemma by_key_ok_set:
  assumes ok: "by_key_ok rt objs" and d: "0 < d"
  shows "by_key_ok rt
     (obj_set (fst objs) k (js_plus rt (get_or0 rt (fst objs) k) (PNum 1)),
      obj_set (snd objs) k (js_plus rt (get_or0 rt (snd objs) k) (PNum d)))"
proof (cases "ObjectPrototype rt k = None")
  case False
  with ok show ?thesis
    by (auto simp: by_key_ok_def obj_set_def)
next
  case True
  from get_or0_count [OF ok True] obtain a where a: "get_or0 rt (fst objs) k = PNum a" "0 \<le> a"
    by blast
  from get_or0_duration [OF ok True] obtain b where b: "get_or0 rt (snd objs) k = PNum b" "0 \<le> b"
    by blast
  from ok d a b show ?thesis
    by (auto simp: by_key_ok_def obj_set_def js_plus_def)
qed

lemma by_key_ok_track:
  "by_key_ok rt objs \<Longrightarrow> 0 < d \<Longrightarrow> track rt key d objs = Inr objs' \<Longrightarrow> by_key_ok rt objs'"
  by (auto simp: track_def by_key_ok_set split: option.splits if_splits)

lemma by_key_ok_body:
  assumes "by_key_ok rt (requestsByProvider r, durationByProvider r)"
    and "by_key_ok rt (requestsByModel r, durationByModel r)"
  shows "by_key_ok rt (requestsByProvider (fst (callback_body rt l r i m f)),
                      durationByProvider (fst (callback_body rt l r i m f))) \<and>
         by_key_ok rt (requestsByModel (fst (callback_body rt l r i m f)),
                      durationByModel (fst (callback_body rt l r i m f)))"
proof (cases "0 < requestDuration f")
  case False
  with assms show ?thesis by (simp add: body_no_duration)
next
  case d: True
  let ?d = "requestDuration f"
  show ?thesis
  proof (cases "track rt (f ''provider'') ?d (requestsByProvider r, durationByProvider r)")
    case (Inl e)
    with d assms show ?thesis
      by (simp add: callback_body_def Let_def add_usage_fields)
  next
    case p: (Inr byProvider)
    from by_key_ok_track [OF assms(1) d p] have okp: "by_key_ok rt byProvider" .
    show ?thesis
    proof (cases "track rt (f ''modelId'') ?d (requestsByModel r, durationByModel r)")
      case (Inl e)
      with d p okp assms show ?thesis
        by (simp add: callback_body_def Let_def add_usage_fields)
    next
      case q: (Inr byModel)
      from by_key_ok_track [OF assms(2) d q] have okm: "by_key_ok rt byModel" .
      from d p q okp okm show ?thesis
        by (simp add: callback_body_def Let_def add_usage_fields set_contextTokens_fields)
    qed
  qed
qed

lemma by_key_ok_step:
  assumes "by_key_ok rt (requestsByProvider r, durationByProvider r)"
    and "by_key_ok rt (requestsByModel r, durationByModel r)"
  shows "by_key_ok rt (requestsByProvider (step rt l r i m), durationByProvider (step rt l r i m)) \<and>
         by_key_ok rt (requestsByModel (step rt l r i m), durationByModel (step rt l r i m))"
  using assms by (simp add: step_def by_key_ok_body split: option.splits)

lemma by_key_ok_steps:
  assumes "by_key_ok rt (requestsByProvider r, durationByProvider r)"
    and "by_key_ok rt (requestsByModel r, durationByModel r)"
  shows "by_key_ok rt (requestsByProvider (steps rt l r i ms), durationByProvider (steps rt l r i ms)) \<and>
         by_key_ok rt (requestsByModel (steps rt l r i ms), durationByModel (steps rt l r i ms))"
  using assms
proof (induction ms arbitrary: r i)
  case Nil
  then show ?case by simp
next
  case (Cons m ms)
  from by_key_ok_step [OF Cons.prems, of l i m] Cons.IH show ?case by simp
qed

text \<open>
  For every sequence, the request counts and the durations by provider have the same keys,
  and so have those by model; under a key that is not the name of a property of
  \<^verbatim>\<open>Object.prototype\<close> the count is a number that is at least 1 and the duration a
  strictly positive number.
\<close>

lemma by_key_totals:
  "\<exists>r c'. getApiMetrics rt messages console = Inr (r, c') \<and>
     by_key_ok rt (requestsByProvider r, durationByProvider r) \<and>
     by_key_ok rt (requestsByModel r, durationByModel r)"
proof -
  let ?R = "steps rt (lastApiReq rt messages) result0 0 messages"
  obtain c' where run: "getApiMetrics rt messages console = Inr (set_averageDuration ?R, c')"
    using getApiMetrics_steps by blast
  have "by_key_ok rt (requestsByProvider result0, durationByProvider result0)"
    "by_key_ok rt (requestsByModel result0, durationByModel result0)"
    by (simp_all add: by_key_ok_def result0_def)
  from by_key_ok_steps [OF this] run show ?thesis
    by (simp add: set_averageDuration_fields)
qed

subsection \<open>Providers and models named like an inherited property\<close>

text \<open>
  Claim C10 says that every key of \<^verbatim>\<open>requestsByProvider\<close> has a request count of at
  least 1 and every key of \<^verbatim>\<open>durationByProvider\<close> a strictly positive duration. The
  two objects are created as \<^verbatim>\<open>{}\<close> and so inherit from \<^verbatim>\<open>Object.prototype\<close>: for a
  provider named \<^verbatim>\<open>constructor\<close> the lookup \<^verbatim>\<open>result.requestsByProvider[provider]\<close>
  finds the inherited function, which is truthy, and \<^verbatim>\<open>+\<close> concatenates. Both values
  stored are strings.
\<close>

theorem inherited_key_counts_counterexample:
  "(case getApiMetrics node [api_req_started 1000 payload5] [] of
      Inl e \<Rightarrow> False
    | Inr (r, c) \<Rightarrow>
        requestsByProvider r ''constructor'' = Some (PStr ''function Object() { [native code] }1'') \<and>
        durationByProvider r ''constructor'' = Some (PStr ''function Object() { [native code] }150'') \<and>
        c = [])"
  by (simp add: run_defs node_parse node_payload_nonempty node_runtime)

end
